theory Spec2Isabelle
  imports Main
begin

section \<open>Data model\<close>

text \<open>
  The stock ledger and the sales engine of the pharmacy backend: the handlers
  \<^verbatim>\<open>createStockTransaction\<close>, \<^verbatim>\<open>createSalesTransaction\<close> and
  \<^verbatim>\<open>cancelSalesTransaction\<close> of \<^verbatim>\<open>server/src/handlers\<close>, the schemas
  of \<^verbatim>\<open>server/src/schema.ts\<close> that the router of \<^verbatim>\<open>server/src/index.ts\<close>
  puts in front of them, and the tables of \<^verbatim>\<open>server/src/db/schema.ts\<close>.

  A table is the list of its rows in insertion order. \<^verbatim>\<open>select ... where id = k\<close>
  is a \<open>filter\<close>, \<^verbatim>\<open>rows.length === 0\<close> and \<^verbatim>\<open>rows[0]\<close> are a case split on
  the filtered list, \<^verbatim>\<open>update ... set ... where id = k\<close> maps over the rows, and
  \<^verbatim>\<open>insert\<close> appends a row whose id is the next value of the table's serial.
  Every statement succeeds: integer columns hold mathematical integers, and the
  foreign keys and the precision of the numeric columns are not enforced. Ids are
  natural numbers. The handlers run one at a time. The columns \<^verbatim>\<open>description\<close>,
  \<^verbatim>\<open>expiry_date\<close>, \<^verbatim>\<open>batch_number\<close>, \<^verbatim>\<open>supplier\<close> and the timestamps
  are read by no handler modelled here and are left out.

  Field names follow the schema, with a prefix where two tables share a name:
  \<open>med_\<close> (medicines), \<open>st_\<close> (stock_transactions), \<open>sale_\<close> (sales_transactions),
  \<open>item_\<close> (sales_transaction_items), \<open>in_\<close> and \<open>ci_\<close> (handler inputs and
  their cart lines).
\<close>

datatype stock_transaction_type = IN | OUT

datatype payment_method = CASH | DEBIT | CREDIT | TRANSFER

datatype transaction_status = PENDING | COMPLETED | CANCELLED

text \<open>
  Money. A \<^verbatim>\<open>numeric(10, 2)\<close> column is read and written as a string (type \<open>'n\<close>);
  the handlers compute on JavaScript numbers (type \<open>'f\<close>), which they obtain with
  \<^verbatim>\<open>parseFloat\<close> and store back with \<^verbatim>\<open>toString\<close>. The arithmetic of numbers is
  a parameter of the model: every theorem below holds for whatever these operations
  compute.
\<close>

record ('f, 'n) number_ops =
  parseFloat :: "'n \<Rightarrow> 'f"
  toNumeric :: "'f \<Rightarrow> 'n"
  mulNumber :: "'f \<Rightarrow> int \<Rightarrow> 'f"
  addNumber :: "'f \<Rightarrow> 'f \<Rightarrow> 'f"
  subNumber :: "'f \<Rightarrow> 'f \<Rightarrow> 'f"
  zeroNumber :: "'f"
  ltZero :: "'f \<Rightarrow> bool"
  gtZero :: "'f \<Rightarrow> bool"

text \<open>
  \<open>toNumeric x\<close> is \<^verbatim>\<open>x.toString()\<close> as the column keeps it, \<open>mulNumber p q\<close> is
  \<^verbatim>\<open>p * q\<close> for an integer \<open>q\<close>, \<open>zeroNumber\<close> is the literal \<^verbatim>\<open>0\<close>,
  \<open>ltZero x\<close> is \<^verbatim>\<open>x < 0\<close> and \<open>gtZero x\<close> is \<^verbatim>\<open>x > 0\<close>.
\<close>

record 'n medicine =
  med_id :: nat
  name :: string
  unit :: string
  price :: 'n
  minimum_stock :: int
  current_stock :: int

record stock_transaction =
  st_id :: nat
  st_medicine_id :: nat
  st_type :: stock_transaction_type
  st_quantity :: int
  st_notes :: "string option"

record 'a sales_transaction =
  sale_id :: nat
  sale_patient_id :: "nat option"
  total_amount :: 'a
  sale_payment_method :: payment_method
  payment_received :: 'a
  change_amount :: 'a
  status :: transaction_status
  sale_notes :: "string option"

record 'a sales_transaction_item =
  item_id :: nat
  transaction_id :: nat
  medicine_id :: nat
  quantity :: int
  unit_price :: 'a
  total_price :: 'a

record 'n db =
  medicinesTable :: "'n medicine list"
  stockTransactionsTable :: "stock_transaction list"
  salesTransactionsTable :: "'n sales_transaction list"
  salesTransactionItemsTable :: "'n sales_transaction_item list"
  stock_transactions_id_seq :: nat
  sales_transactions_id_seq :: nat
  sales_transaction_items_id_seq :: nat

text \<open>What a handler throws. The strings of the source's messages are the fields.\<close>

datatype error =
    MedicineNotFound nat
  | InsufficientStock int int
  | InsufficientStockFor string int int
  | PaymentLessThanTotal
  | ZodError "string list"

text \<open>
  \<open>MedicineNotFound k\<close>: \<^verbatim>\<open>Medicine with ID k not found\<close>.
  \<open>InsufficientStock a r\<close>: \<^verbatim>\<open>Insufficient stock. Available: a, Required: r\<close>
  (createStockTransaction).
  \<open>InsufficientStockFor n a r\<close>: \<^verbatim>\<open>Insufficient stock for n. Available: a, Requested: r\<close>
  (createSalesTransaction).
  \<open>PaymentLessThanTotal\<close>: \<^verbatim>\<open>Payment received is less than total amount\<close>.
  \<open>ZodError issues\<close>: the input did not parse against the procedure's schema.
\<close>

record createStockTransactionInput =
  in_medicine_id :: nat
  in_type :: stock_transaction_type
  in_quantity :: int
  in_notes :: "string option"

record cart_item =
  ci_medicine_id :: nat
  ci_quantity :: int

record 'f createSalesTransactionInput =
  in_patient_id :: "nat option"
  in_payment_method :: payment_method
  in_payment_received :: 'f
  in_sale_notes :: "string option"
  items :: "cart_item list"

section \<open>Statements of the store\<close>

definition select_medicine :: "'n db \<Rightarrow> nat \<Rightarrow> 'n medicine list" where
  "select_medicine d k = filter (\<lambda>m. med_id m = k) (medicinesTable d)"

definition update_current_stock :: "nat \<Rightarrow> int \<Rightarrow> 'n db \<Rightarrow> 'n db" where
  "update_current_stock k v d =
     d\<lparr>medicinesTable :=
         map (\<lambda>m. if med_id m = k then m\<lparr>current_stock := v\<rparr> else m) (medicinesTable d)\<rparr>"

definition insert_stock_transaction ::
  "nat \<Rightarrow> stock_transaction_type \<Rightarrow> int \<Rightarrow> string option \<Rightarrow> 'n db \<Rightarrow> stock_transaction \<times> 'n db" where
  "insert_stock_transaction k ty q notes d =
     (let row = \<lparr>st_id = stock_transactions_id_seq d, st_medicine_id = k, st_type = ty,
                 st_quantity = q, st_notes = notes\<rparr>
      in (row, d\<lparr>stockTransactionsTable := stockTransactionsTable d @ [row],
                 stock_transactions_id_seq := Suc (stock_transactions_id_seq d)\<rparr>))"

definition select_sales_transaction :: "'n db \<Rightarrow> nat \<Rightarrow> 'n sales_transaction list" where
  "select_sales_transaction d k = filter (\<lambda>t. sale_id t = k) (salesTransactionsTable d)"

definition select_items :: "'n db \<Rightarrow> nat \<Rightarrow> 'n sales_transaction_item list" where
  "select_items d k = filter (\<lambda>i. transaction_id i = k) (salesTransactionItemsTable d)"

definition update_status :: "nat \<Rightarrow> transaction_status \<Rightarrow> 'n db \<Rightarrow> 'n db" where
  "update_status k s d =
     d\<lparr>salesTransactionsTable :=
         map (\<lambda>t. if sale_id t = k then t\<lparr>status := s\<rparr> else t) (salesTransactionsTable d)\<rparr>"

section \<open>The stock ledger: createStockTransaction\<close>

definition createStockTransaction ::
  "createStockTransactionInput \<Rightarrow> 'n db \<Rightarrow> (error + stock_transaction) \<times> 'n db" where
  "createStockTransaction input d =
     (case select_medicine d (in_medicine_id input) of
        [] \<Rightarrow> (Inl (MedicineNotFound (in_medicine_id input)), d)
      | currentMedicine # _ \<Rightarrow>
          if in_type input = OUT \<and> current_stock currentMedicine < in_quantity input
          then (Inl (InsufficientStock (current_stock currentMedicine) (in_quantity input)), d)
          else
            let (createdTransaction, d1) =
                  insert_stock_transaction (in_medicine_id input) (in_type input)
                    (in_quantity input) (in_notes input) d;
                stockChange = (if in_type input = IN then in_quantity input
                               else - in_quantity input);
                newStock = current_stock currentMedicine + stockChange;
                d2 = update_current_stock (in_medicine_id input) newStock d1
            in (Inr createdTransaction, d2))"

text \<open>
  The procedure \<^verbatim>\<open>stock.createTransaction\<close> of \<^verbatim>\<open>server/src/index.ts\<close> parses
  its input against \<^verbatim>\<open>createStockTransactionInputSchema\<close> and calls the handler
  with what parsed. Of the schema, \<^verbatim>\<open>quantity: z.number().int().positive(...)\<close>
  is the one check a value of the input type can fail.
\<close>

definition createStockTransactionInputSchema :: "createStockTransactionInput \<Rightarrow> string list" where
  "createStockTransactionInputSchema input =
     (if 0 < in_quantity input then [] else [''Jumlah harus lebih dari 0''])"

definition stock_createTransaction ::
  "createStockTransactionInput \<Rightarrow> 'n db \<Rightarrow> (error + stock_transaction) \<times> 'n db" where
  "stock_createTransaction input d =
     (case createStockTransactionInputSchema input of
        [] \<Rightarrow> createStockTransaction input d
      | issues \<Rightarrow> (Inl (ZodError issues), d))"

section \<open>The sales engine: createSalesTransaction\<close>

text \<open>Decimal rendering of an id, as a template literal interpolates it.\<close>

function show_nat :: "nat \<Rightarrow> string" where
  "show_nat n =
     (if n < 10 then [''0123456789'' ! n]
      else show_nat (n div 10) @ [''0123456789'' ! (n mod 10)])"
  by pat_completeness auto
termination
  by (relation "measure (\<lambda>n. n)") auto

declare show_nat.simps [simp del]

text \<open>
  The first loop: one lookup and one stock check per cart line, in cart order, each
  against the table as it stands (nothing has been written yet). \<open>medicineData\<close>
  pairs the row that was read with the requested quantity (the source spreads the row
  and adds \<^verbatim>\<open>requestedQuantity\<close>).
\<close>

fun collect_medicineData :: "'n db \<Rightarrow> cart_item list \<Rightarrow> error + ('n medicine \<times> int) list" where
  "collect_medicineData d [] = Inr []"
| "collect_medicineData d (item # rest) =
     (case select_medicine d (ci_medicine_id item) of
        [] \<Rightarrow> Inl (MedicineNotFound (ci_medicine_id item))
      | medicineRecord # _ \<Rightarrow>
          if current_stock medicineRecord < ci_quantity item
          then Inl (InsufficientStockFor (name medicineRecord)
                      (current_stock medicineRecord) (ci_quantity item))
          else (case collect_medicineData d rest of
                  Inl e \<Rightarrow> Inl e
                | Inr medicineData \<Rightarrow> Inr ((medicineRecord, ci_quantity item) # medicineData)))"

record 'f item_with_price =
  ip_medicine_id :: nat
  ip_quantity :: int
  ip_unit_price :: 'f
  ip_total_price :: 'f

definition itemsWithPrices ::
  "('f, 'n) number_ops \<Rightarrow> ('n medicine \<times> int) list \<Rightarrow> 'f item_with_price list" where
  "itemsWithPrices ops medicineData =
     map (\<lambda>(med, requestedQuantity).
            \<lparr>ip_medicine_id = med_id med, ip_quantity = requestedQuantity,
             ip_unit_price = parseFloat ops (price med),
             ip_total_price = mulNumber ops (parseFloat ops (price med)) requestedQuantity\<rparr>)
         medicineData"

definition totalAmount :: "('f, 'n) number_ops \<Rightarrow> ('n medicine \<times> int) list \<Rightarrow> 'f" where
  "totalAmount ops medicineData =
     foldl (\<lambda>acc (med, requestedQuantity).
              addNumber ops acc (mulNumber ops (parseFloat ops (price med)) requestedQuantity))
           (zeroNumber ops) medicineData"

definition insert_sales_transaction ::
  "nat option \<Rightarrow> 'n \<Rightarrow> payment_method \<Rightarrow> 'n \<Rightarrow> 'n \<Rightarrow> transaction_status \<Rightarrow> string option
     \<Rightarrow> 'n db \<Rightarrow> 'n sales_transaction \<times> 'n db" where
  "insert_sales_transaction pid tot meth recv chg st notes d =
     (let row = \<lparr>sale_id = sales_transactions_id_seq d, sale_patient_id = pid,
                 total_amount = tot, sale_payment_method = meth,
                 payment_received = recv, change_amount = chg, status = st,
                 sale_notes = notes\<rparr>
      in (row, d\<lparr>salesTransactionsTable := salesTransactionsTable d @ [row],
                 sales_transactions_id_seq := Suc (sales_transactions_id_seq d)\<rparr>))"

definition insert_sales_transaction_item ::
  "nat \<Rightarrow> nat \<Rightarrow> int \<Rightarrow> 'n \<Rightarrow> 'n \<Rightarrow> 'n db \<Rightarrow> 'n db" where
  "insert_sales_transaction_item tid k q up tp d =
     d\<lparr>salesTransactionItemsTable :=
         salesTransactionItemsTable d @
           [\<lparr>item_id = sales_transaction_items_id_seq d, transaction_id = tid,
             medicine_id = k, quantity = q, unit_price = up, total_price = tp\<rparr>],
       sales_transaction_items_id_seq := Suc (sales_transaction_items_id_seq d)\<rparr>"

text \<open>The second loop: one item row per priced line.\<close>

fun insert_items ::
  "('f, 'n) number_ops \<Rightarrow> nat \<Rightarrow> 'f item_with_price list \<Rightarrow> 'n db \<Rightarrow> 'n db" where
  "insert_items ops tid [] d = d"
| "insert_items ops tid (item # rest) d =
     insert_items ops tid rest
       (insert_sales_transaction_item tid (ip_medicine_id item) (ip_quantity item)
          (toNumeric ops (ip_unit_price item)) (toNumeric ops (ip_total_price item)) d)"

text \<open>
  The third loop: per line, set the medicine's stock to the stock \<^emph>\<open>read by the first
  loop\<close> minus the line's quantity, then append the OUT movement.
\<close>

fun debit_stock :: "nat \<Rightarrow> ('n medicine \<times> int) list \<Rightarrow> 'n db \<Rightarrow> 'n db" where
  "debit_stock tid [] d = d"
| "debit_stock tid ((med, requestedQuantity) # rest) d =
     debit_stock tid rest
       (snd (insert_stock_transaction (med_id med) OUT requestedQuantity
               (Some (''Sales transaction #'' @ show_nat tid))
               (update_current_stock (med_id med) (current_stock med - requestedQuantity) d)))"

definition createSalesTransaction ::
  "('f, 'n) number_ops \<Rightarrow> 'f createSalesTransactionInput \<Rightarrow> 'n db
     \<Rightarrow> (error + 'f sales_transaction) \<times> 'n db" where
  "createSalesTransaction ops input d =
     (case collect_medicineData d (items input) of
        Inl e \<Rightarrow> (Inl e, d)
      | Inr medicineData \<Rightarrow>
          let changeAmount = subNumber ops (in_payment_received input)
                               (totalAmount ops medicineData)
          in if ltZero ops changeAmount then (Inl PaymentLessThanTotal, d)
             else
               let (transaction, d1) =
                     insert_sales_transaction (in_patient_id input)
                       (toNumeric ops (totalAmount ops medicineData))
                       (in_payment_method input)
                       (toNumeric ops (in_payment_received input))
                       (toNumeric ops changeAmount) COMPLETED (in_sale_notes input) d;
                   d2 = insert_items ops (sale_id transaction)
                          (itemsWithPrices ops medicineData) d1;
                   d3 = debit_stock (sale_id transaction) medicineData d2
               in (Inr \<lparr>sale_id = sale_id transaction,
                         sale_patient_id = sale_patient_id transaction,
                         total_amount = parseFloat ops (total_amount transaction),
                         sale_payment_method = sale_payment_method transaction,
                         payment_received = parseFloat ops (payment_received transaction),
                         change_amount = parseFloat ops (change_amount transaction),
                         status = status transaction,
                         sale_notes = sale_notes transaction\<rparr>, d3))"

text \<open>
  The procedure \<^verbatim>\<open>sales.createTransaction\<close> parses against
  \<^verbatim>\<open>createSalesTransactionInputSchema\<close> first: a positive payment, at least one
  line, a positive quantity on every line.
\<close>

definition createSalesTransactionInputSchema ::
  "('f, 'n) number_ops \<Rightarrow> 'f createSalesTransactionInput \<Rightarrow> string list" where
  "createSalesTransactionInputSchema ops input =
     (if gtZero ops (in_payment_received input) then [] else [''Jumlah bayar harus lebih dari 0''])
     @ (if 1 \<le> length (items input) then [] else [''Minimal harus ada satu item''])
     @ concat (map (\<lambda>i. if 0 < ci_quantity i then [] else [''Jumlah harus lebih dari 0''])
                 (items input))"

definition sales_createTransaction ::
  "('f, 'n) number_ops \<Rightarrow> 'f createSalesTransactionInput \<Rightarrow> 'n db
     \<Rightarrow> (error + 'f sales_transaction) \<times> 'n db" where
  "sales_createTransaction ops input d =
     (case createSalesTransactionInputSchema ops input of
        [] \<Rightarrow> createSalesTransaction ops input d
      | issues \<Rightarrow> (Inl (ZodError issues), d))"

section \<open>The sales engine: cancelSalesTransaction\<close>

text \<open>
  The body of the loop over the sale's items: it reads the medicine afresh, and when
  the medicine is not found it does nothing for the line.
\<close>

definition restore_step :: "nat \<Rightarrow> 'n sales_transaction_item \<Rightarrow> 'n db \<Rightarrow> 'n db" where
  "restore_step tid item d =
     (case select_medicine d (medicine_id item) of
        [] \<Rightarrow> d
      | medicine # _ \<Rightarrow>
          snd (insert_stock_transaction (medicine_id item) IN (quantity item)
                 (Some (''Cancelled sales transaction #'' @ show_nat tid))
                 (update_current_stock (medicine_id item)
                    (current_stock medicine + quantity item) d)))"

fun restore_stock :: "nat \<Rightarrow> 'n sales_transaction_item list \<Rightarrow> 'n db \<Rightarrow> 'n db" where
  "restore_stock tid [] d = d"
| "restore_stock tid (item # rest) d = restore_stock tid rest (restore_step tid item d)"

definition cancelSalesTransaction :: "nat \<Rightarrow> 'n db \<Rightarrow> bool \<times> 'n db" where
  "cancelSalesTransaction tid d =
     (case select_sales_transaction d tid of
        [] \<Rightarrow> (False, d)
      | transaction # _ \<Rightarrow>
          if status transaction = CANCELLED then (False, d)
          else
            let itemResults = select_items d tid;
                d1 = update_status tid CANCELLED d;
                d2 = restore_stock tid itemResults d1
            in (True, d2))"

text \<open>
  \<^verbatim>\<open>sales.cancelTransaction\<close> takes \<^verbatim>\<open>{ id: number }\<close> and calls the handler;
  its schema has no check that a value of the input type can fail.
\<close>

definition sales_cancelTransaction :: "nat \<Rightarrow> 'n db \<Rightarrow> bool \<times> 'n db" where
  "sales_cancelTransaction tid d = cancelSalesTransaction tid d"

section \<open>Sequences of calls\<close>

text \<open>
  The three mutating procedures of the core, as the router exposes them. A call that
  throws leaves the store as the handler left it.
\<close>

datatype 'f operation =
    StockCreateTransaction createStockTransactionInput
  | SalesCreateTransaction "'f createSalesTransactionInput"
  | SalesCancelTransaction nat

fun run_operation :: "('f, 'n) number_ops \<Rightarrow> 'n db \<Rightarrow> 'f operation \<Rightarrow> 'n db" where
  "run_operation ops d (StockCreateTransaction input) = snd (stock_createTransaction input d)"
| "run_operation ops d (SalesCreateTransaction input) = snd (sales_createTransaction ops input d)"
| "run_operation ops d (SalesCancelTransaction tid) = snd (sales_cancelTransaction tid d)"

definition run_operations :: "('f, 'n) number_ops \<Rightarrow> 'n db \<Rightarrow> 'f operation list \<Rightarrow> 'n db" where
  "run_operations ops d calls = foldl (run_operation ops) d calls"

text \<open>
  The medicine handlers are the other writers of the medicines table. An event is a
  call of the core or any rewrite of that table.
\<close>

datatype ('f, 'n) event =
    Call "'f operation"
  | MedicinesWritten "'n medicine list"

fun run_event :: "('f, 'n) number_ops \<Rightarrow> 'n db \<Rightarrow> ('f, 'n) event \<Rightarrow> 'n db" where
  "run_event ops d (Call c) = run_operation ops d c"
| "run_event ops d (MedicinesWritten ms) = d\<lparr>medicinesTable := ms\<rparr>"

definition run_events :: "('f, 'n) number_ops \<Rightarrow> 'n db \<Rightarrow> ('f, 'n) event list \<Rightarrow> 'n db" where
  "run_events ops d es = foldl (run_event ops) d es"

section \<open>Observations\<close>

text \<open>The stock a handler reads for medicine \<open>k\<close>: that of the first row selected.\<close>

definition stock_of :: "'n db \<Rightarrow> nat \<Rightarrow> int option" where
  "stock_of d k = (case select_medicine d k of [] \<Rightarrow> None | m # _ \<Rightarrow> Some (current_stock m))"

text \<open>A ledger row without its serial id.\<close>

definition movement :: "stock_transaction \<Rightarrow> nat \<times> stock_transaction_type \<times> int \<times> string option" where
  "movement t = (st_medicine_id t, st_type t, st_quantity t, st_notes t)"

definition signed_quantity :: "stock_transaction \<Rightarrow> int" where
  "signed_quantity t = (if st_type t = IN then st_quantity t else - st_quantity t)"

text \<open>The signed sum of the ledger rows recorded against medicine \<open>k\<close>.\<close>

definition ledger_sum :: "'n db \<Rightarrow> nat \<Rightarrow> int" where
  "ledger_sum d k =
     sum_list (map signed_quantity (filter (\<lambda>t. st_medicine_id t = k) (stockTransactionsTable d)))"

text \<open>
  The counter less the ledger sum: the stock at creation, as long as counter and ledger
  agree.
\<close>

definition counter_minus_ledger :: "'n db \<Rightarrow> nat \<Rightarrow> int option" where
  "counter_minus_ledger d k = map_option (\<lambda>s. s - ledger_sum d k) (stock_of d k)"

text \<open>A call whose cart, if it has one, names no medicine twice.\<close>

fun names_each_medicine_once :: "'f operation \<Rightarrow> bool" where
  "names_each_medicine_once (SalesCreateTransaction input) =
     distinct (map ci_medicine_id (items input))"
| "names_each_medicine_once _ = True"

text \<open>A cart line passes the first loop: its medicine is found and has the stock.\<close>

definition line_ok :: "'n db \<Rightarrow> cart_item \<Rightarrow> bool" where
  "line_ok d i =
     (case select_medicine d (ci_medicine_id i) of
        [] \<Rightarrow> False
      | m # _ \<Rightarrow> ci_quantity i \<le> current_stock m)"

text \<open>The quantity of the last line of a cart that names medicine \<open>k\<close>.\<close>

fun last_quantity :: "nat \<Rightarrow> cart_item list \<Rightarrow> int option" where
  "last_quantity k [] = None"
| "last_quantity k (i # rest) =
     (case last_quantity k rest of
        Some q \<Rightarrow> Some q
      | None \<Rightarrow> if ci_medicine_id i = k then Some (ci_quantity i) else None)"

text \<open>The stock the third loop of createSalesTransaction writes last for medicine \<open>k\<close>.\<close>

fun last_debit :: "nat \<Rightarrow> ('n medicine \<times> int) list \<Rightarrow> int option" where
  "last_debit k [] = None"
| "last_debit k ((med, q) # rest) =
     (case last_debit k rest of
        Some v \<Rightarrow> Some v
      | None \<Rightarrow> if med_id med = k then Some (current_stock med - q) else None)"

text \<open>The row a lookup of sale \<open>tid\<close> returns has status CANCELLED.\<close>

definition is_cancelled :: "'n db \<Rightarrow> nat \<Rightarrow> bool" where
  "is_cancelled d tid =
     (case select_sales_transaction d tid of [] \<Rightarrow> False | t # _ \<Rightarrow> status t = CANCELLED)"

definition stock_nonneg :: "'n db \<Rightarrow> bool" where
  "stock_nonneg d = list_all (\<lambda>m. 0 \<le> current_stock m) (medicinesTable d)"

definition items_positive :: "'n db \<Rightarrow> bool" where
  "items_positive d = list_all (\<lambda>i. 0 < quantity i) (salesTransactionItemsTable d)"

text \<open>An item row without its serial id.\<close>

definition item_line :: "'n sales_transaction_item \<Rightarrow> nat \<times> nat \<times> int \<times> 'n \<times> 'n" where
  "item_line i = (transaction_id i, medicine_id i, quantity i, unit_price i, total_price i)"

section \<open>Numbers as binary64 doubles\<close>

text \<open>
  The numbers of the running code: a finite IEEE-754 binary64 value is
  \<open>Binary64 m e\<close>, standing for \<open>m * 2 ^ e\<close>, and every operation returns the
  double nearest to its exact result, ties to the even significand.
  \<open>nearest_binary64 n d e\<close> is the double nearest to \<open>n / d * 2 ^ e\<close> (with
  \<open>0 < d\<close>): the value is scaled until its quotient has 53 bits (or the exponent is
  at its least, \<open>-1074\<close>) and the quotient is rounded. Infinity, NaN and the sign of
  zero are not represented; no computation below reaches them.
\<close>

datatype binary64 = Binary64 int int

function scale_down :: "int \<Rightarrow> int \<Rightarrow> int \<Rightarrow> int \<times> int \<times> int" where
  "scale_down n d e =
     (if 0 < d \<and> d * 2 ^ 53 \<le> n then scale_down n (2 * d) (e + 1) else (n, d, e))"
  by pat_completeness auto
termination
  by (relation "measure (\<lambda>(n, d, e). nat (n - d * 2 ^ 53 + 1))") auto

function scale_up :: "int \<Rightarrow> int \<Rightarrow> int \<Rightarrow> int \<times> int \<times> int" where
  "scale_up n d e =
     (if 0 < n \<and> n < d * 2 ^ 52 \<and> - 1074 < e then scale_up (2 * n) d (e - 1) else (n, d, e))"
  by pat_completeness auto
termination
  by (relation "measure (\<lambda>(n, d, e). nat (e + 1074))") auto

declare scale_down.simps [simp del] scale_up.simps [simp del]

definition round_half_even :: "int \<Rightarrow> int \<Rightarrow> int" where
  "round_half_even n d =
     (let q = n div d; r = n mod d
      in if 2 * r < d then q
         else if d < 2 * r then q + 1
         else if even q then q else q + 1)"

definition nearest_positive :: "int \<Rightarrow> int \<Rightarrow> int \<Rightarrow> binary64" where
  "nearest_positive n d e =
     (case scale_down n d e of (n1, d1, e1) \<Rightarrow>
        (case (if e1 < - 1074 then (n1, d1 * 2 ^ nat (- 1074 - e1), - 1074)
               else scale_up n1 d1 e1) of
           (n2, d2, e2) \<Rightarrow> Binary64 (round_half_even n2 d2) e2))"

definition nearest_binary64 :: "int \<Rightarrow> int \<Rightarrow> int \<Rightarrow> binary64" where
  "nearest_binary64 n d e =
     (if n = 0 then Binary64 0 0
      else if n < 0 then (case nearest_positive (- n) d e of Binary64 m e' \<Rightarrow> Binary64 (- m) e')
      else nearest_positive n d e)"

fun binary64_times :: "binary64 \<Rightarrow> int \<Rightarrow> binary64" where
  "binary64_times (Binary64 m e) q = nearest_binary64 (m * q) 1 e"

fun binary64_plus :: "binary64 \<Rightarrow> binary64 \<Rightarrow> binary64" where
  "binary64_plus (Binary64 m1 e1) (Binary64 m2 e2) =
     (let e = min e1 e2
      in nearest_binary64 (m1 * 2 ^ nat (e1 - e) + m2 * 2 ^ nat (e2 - e)) 1 e)"

fun binary64_minus :: "binary64 \<Rightarrow> binary64 \<Rightarrow> binary64" where
  "binary64_minus (Binary64 m1 e1) (Binary64 m2 e2) =
     (let e = min e1 e2
      in nearest_binary64 (m1 * 2 ^ nat (e1 - e) - m2 * 2 ^ nat (e2 - e)) 1 e)"

fun binary64_sign :: "binary64 \<Rightarrow> int" where
  "binary64_sign (Binary64 m e) = sgn m"

text \<open>
  \<^verbatim>\<open>parseFloat\<close> of a \<^verbatim>\<open>numeric(10, 2)\<close> column holding \<open>n\<close> hundredths is the
  double nearest to \<open>n / 100\<close>. What \<^verbatim>\<open>toString\<close> and the column make of a double
  on the way back is the parameter \<open>column\<close>.
\<close>

definition binary64_ops :: "(binary64 \<Rightarrow> int) \<Rightarrow> (binary64, int) number_ops" where
  "binary64_ops column =
     \<lparr>parseFloat = (\<lambda>n. nearest_binary64 n 100 0), toNumeric = column,
      mulNumber = binary64_times, addNumber = binary64_plus, subNumber = binary64_minus,
      zeroNumber = Binary64 0 0,
      ltZero = (\<lambda>x. binary64_sign x < 0), gtZero = (\<lambda>x. 0 < binary64_sign x)\<rparr>"

section \<open>Concrete data\<close>

text \<open>
  Numbers as exact counts of hundredths: an instance of the number operations on which
  the handlers can be evaluated. On the inputs below every intermediate value is an
  integer that a double holds exactly.
\<close>

definition hundredths_ops :: "(int, int) number_ops" where
  "hundredths_ops =
     \<lparr>parseFloat = (\<lambda>n. n), toNumeric = (\<lambda>x. x), mulNumber = (\<lambda>p q. p * q),
      addNumber = (\<lambda>x y. x + y), subNumber = (\<lambda>x y. x - y), zeroNumber = 0,
      ltZero = (\<lambda>x. x < 0), gtZero = (\<lambda>x. 0 < x)\<rparr>"

text \<open>The two medicines of the handlers' tests (prices 5000.00 and 3000.00).\<close>

definition test_db :: "int db" where
  "test_db =
     \<lparr>medicinesTable =
        [\<lparr>med_id = 1, name = ''Paracetamol'', unit = ''tablet'', price = 500000,
          minimum_stock = 10, current_stock = 100\<rparr>,
         \<lparr>med_id = 2, name = ''Amoxicillin'', unit = ''capsule'', price = 300000,
          minimum_stock = 5, current_stock = 50\<rparr>],
      stockTransactionsTable = [], salesTransactionsTable = [],
      salesTransactionItemsTable = [],
      stock_transactions_id_seq = 1, sales_transactions_id_seq = 1,
      sales_transaction_items_id_seq = 1\<rparr>"

definition sale_input :: "int \<Rightarrow> (nat \<times> int) list \<Rightarrow> int createSalesTransactionInput" where
  "sale_input received cart =
     \<lparr>in_patient_id = None, in_payment_method = CASH, in_payment_received = received,
      in_sale_notes = Some ''Test transaction'',
      items = map (\<lambda>(k, q). \<lparr>ci_medicine_id = k, ci_quantity = q\<rparr>) cart\<rparr>"

text \<open>
  The store after the sale of 5 Paracetamol and 3 Amoxicillin against a payment of
  50000.00 (the cancellation test of the handlers' tests).
\<close>

definition sold_db :: "int db" where
  "sold_db =
     \<lparr>medicinesTable =
        [\<lparr>med_id = 1, name = ''Paracetamol'', unit = ''tablet'', price = 500000,
          minimum_stock = 10, current_stock = 95\<rparr>,
         \<lparr>med_id = 2, name = ''Amoxicillin'', unit = ''capsule'', price = 300000,
          minimum_stock = 5, current_stock = 47\<rparr>],
      stockTransactionsTable =
        [\<lparr>st_id = 1, st_medicine_id = 1, st_type = OUT, st_quantity = 5,
          st_notes = Some ''Sales transaction #1''\<rparr>,
         \<lparr>st_id = 2, st_medicine_id = 2, st_type = OUT, st_quantity = 3,
          st_notes = Some ''Sales transaction #1''\<rparr>],
      salesTransactionsTable =
        [\<lparr>sale_id = 1, sale_patient_id = None, total_amount = 3400000,
          sale_payment_method = CASH, payment_received = 5000000,
          change_amount = 1600000, status = COMPLETED,
          sale_notes = Some ''Test transaction''\<rparr>],
      salesTransactionItemsTable =
        [\<lparr>item_id = 1, transaction_id = 1, medicine_id = 1, quantity = 5,
          unit_price = 500000, total_price = 2500000\<rparr>,
         \<lparr>item_id = 2, transaction_id = 1, medicine_id = 2, quantity = 3,
          unit_price = 300000, total_price = 900000\<rparr>],
      stock_transactions_id_seq = 3, sales_transactions_id_seq = 2,
      sales_transaction_items_id_seq = 3\<rparr>"

text \<open>The same store with the Paracetamol row gone from the medicines table.\<close>

definition vanished_db :: "int db" where
  "vanished_db =
     sold_db\<lparr>medicinesTable :=
               [\<lparr>med_id = 2, name = ''Amoxicillin'', unit = ''capsule'', price = 300000,
                 minimum_stock = 5, current_stock = 47\<rparr>]\<rparr>"

definition stock_input :: "nat \<Rightarrow> stock_transaction_type \<Rightarrow> int \<Rightarrow> createStockTransactionInput" where
  "stock_input k ty q = \<lparr>in_medicine_id = k, in_type = ty, in_quantity = q, in_notes = None\<rparr>"

text \<open>
  A medicine priced 0.10, and the sale of three of it against a payment \<open>received\<close>.
\<close>

definition dime_db :: "int db" where
  "dime_db =
     \<lparr>medicinesTable =
        [\<lparr>med_id = 1, name = ''Vitamin C'', unit = ''tablet'', price = 10,
          minimum_stock = 10, current_stock = 100\<rparr>],
      stockTransactionsTable = [], salesTransactionsTable = [],
      salesTransactionItemsTable = [],
      stock_transactions_id_seq = 1, sales_transactions_id_seq = 1,
      sales_transaction_items_id_seq = 1\<rparr>"

definition three_dimes :: "'f \<Rightarrow> 'f createSalesTransactionInput" where
  "three_dimes received =
     \<lparr>in_patient_id = None, in_payment_method = CASH, in_payment_received = received,
      in_sale_notes = None, items = [\<lparr>ci_medicine_id = 1, ci_quantity = 3\<rparr>]\<rparr>"

section \<open>Facts about the statements of the store\<close>

lemma filter_set_stock:
  "filter (\<lambda>m. med_id m = k') (map (\<lambda>m. if med_id m = k then m\<lparr>current_stock := v\<rparr> else m) ms) =
     (if k' = k then map (\<lambda>m. m\<lparr>current_stock := v\<rparr>) (filter (\<lambda>m. med_id m = k) ms)
      else filter (\<lambda>m. med_id m = k') ms)"
  by (induction ms) auto

lemma select_medicine_update_current_stock:
  "select_medicine (update_current_stock k v d) k' =
     (if k' = k then map (\<lambda>m. m\<lparr>current_stock := v\<rparr>) (select_medicine d k)
      else select_medicine d k')"
  by (simp add: select_medicine_def update_current_stock_def filter_set_stock)

lemma select_medicine_insert_stock_transaction:
  "select_medicine (snd (insert_stock_transaction k ty q n d)) k' = select_medicine d k'"
  by (simp add: select_medicine_def insert_stock_transaction_def Let_def)

lemma stock_of_update_current_stock:
  "stock_of (update_current_stock k v d) k' =
     (if k' = k then map_option (\<lambda>_. v) (stock_of d k) else stock_of d k')"
  by (simp add: stock_of_def select_medicine_update_current_stock split: list.splits)

lemma stock_of_insert_stock_transaction:
  "stock_of (snd (insert_stock_transaction k ty q n d)) k' = stock_of d k'"
  by (simp add: stock_of_def select_medicine_insert_stock_transaction)

lemma ledger_insert_stock_transaction:
  "map movement (stockTransactionsTable (snd (insert_stock_transaction k ty q n d))) =
     map movement (stockTransactionsTable d) @ [(k, ty, q, n)]"
  by (simp add: insert_stock_transaction_def Let_def movement_def)

lemma ledger_update_current_stock:
  "stockTransactionsTable (update_current_stock k v d) = stockTransactionsTable d"
  by (simp add: update_current_stock_def)

section \<open>Quantities that are not positive\<close>

text \<open>
  C7 (as amended). The handler createStockTransaction has no check of the quantity.
  The check is in front of it: the procedure stock.createTransaction parses its input
  against createStockTransactionInputSchema, and for a quantity \<open>\<le> 0\<close>, of either
  direction, the call fails with the schema's issue, the handler is not run and the
  store is unchanged.
\<close>

theorem stock_createTransaction_rejects_nonpositive_quantity:
  "in_quantity input \<le> 0 \<Longrightarrow>
     stock_createTransaction input d = (Inl (ZodError [''Jumlah harus lebih dari 0'']), d)"
  by (simp add: stock_createTransaction_def createStockTransactionInputSchema_def)

theorem stock_createTransaction_rejects_nonpositive_quantity_witness:
  "in_quantity (stock_input 1 OUT 0) \<le> 0 \<and>
   stock_createTransaction (stock_input 1 OUT 0) test_db =
     (Inl (ZodError [''Jumlah harus lebih dari 0'']), test_db)"
  using stock_createTransaction_rejects_nonpositive_quantity [of "stock_input 1 OUT 0" test_db]
  by (simp add: stock_input_def)

text \<open>
  Called with a quantity that is not positive, the handler itself completes: with
  IN and \<open>-5\<close> it appends the ledger row and lowers the stock from 100 to 95; with OUT
  and \<open>0\<close> it appends a row of quantity 0.
\<close>

theorem createStockTransaction_nonpositive_quantity_counterexample:
  "createStockTransaction (stock_input 1 IN (- 5)) test_db =
     (Inr \<lparr>st_id = 1, st_medicine_id = 1, st_type = IN, st_quantity = - 5, st_notes = None\<rparr>,
      test_db\<lparr>medicinesTable :=
                 [\<lparr>med_id = 1, name = ''Paracetamol'', unit = ''tablet'', price = 500000,
                   minimum_stock = 10, current_stock = 95\<rparr>,
                  \<lparr>med_id = 2, name = ''Amoxicillin'', unit = ''capsule'', price = 300000,
                   minimum_stock = 5, current_stock = 50\<rparr>],
               stockTransactionsTable :=
                 [\<lparr>st_id = 1, st_medicine_id = 1, st_type = IN, st_quantity = - 5,
                   st_notes = None\<rparr>],
               stock_transactions_id_seq := 2\<rparr>)
   \<and> fst (createStockTransaction (stock_input 1 OUT 0) test_db) =
       Inr \<lparr>st_id = 1, st_medicine_id = 1, st_type = OUT, st_quantity = 0, st_notes = None\<rparr>"
  by (simp add: createStockTransaction_def stock_input_def test_db_def select_medicine_def
        insert_stock_transaction_def update_current_stock_def Let_def)

section \<open>Facts about the loops of createSalesTransaction\<close>

lemma collect_medicineData_Inr:
  "list_all (line_ok d) cart \<Longrightarrow>
     collect_medicineData d cart =
       Inr (map (\<lambda>i. (hd (select_medicine d (ci_medicine_id i)), ci_quantity i)) cart)"
  by (induction cart) (auto simp: line_ok_def split: list.splits)

lemma collect_medicineData_Inl:
  "\<not> list_all (line_ok d) cart \<Longrightarrow> \<exists>e. collect_medicineData d cart = Inl e"
proof (induction cart)
  case Nil
  then show ?case by simp
next
  case (Cons a cart)
  show ?case
  proof (cases "select_medicine d (ci_medicine_id a)")
    case Nil
    then show ?thesis by simp
  next
    case sel: (Cons m ms)
    show ?thesis
    proof (cases "current_stock m < ci_quantity a")
      case True
      with sel show ?thesis by simp
    next
      case False
      with sel have "line_ok d a" by (simp add: line_ok_def)
      with Cons.prems have "\<not> list_all (line_ok d) cart" by simp
      from Cons.IH [OF this] obtain e where "collect_medicineData d cart = Inl e" ..
      with sel False show ?thesis by simp
    qed
  qed
qed

lemma collect_medicineData_shape:
  assumes "collect_medicineData d cart = Inr md"
  shows "list_all (line_ok d) cart"
    and "md = map (\<lambda>i. (hd (select_medicine d (ci_medicine_id i)), ci_quantity i)) cart"
proof -
  show ok: "list_all (line_ok d) cart"
    using assms collect_medicineData_Inl [of d cart] by auto
  show "md = map (\<lambda>i. (hd (select_medicine d (ci_medicine_id i)), ci_quantity i)) cart"
    using assms collect_medicineData_Inr [OF ok] by simp
qed

lemma collect_medicineData_error:
  "collect_medicineData d cart = Inl e \<Longrightarrow>
     (\<exists>k. e = MedicineNotFound k) \<or> (\<exists>n a r. e = InsufficientStockFor n a r)"
  by (induction cart) (auto split: list.splits if_splits sum.splits)

lemma createSalesTransaction_Inl:
  assumes "createSalesTransaction ops input d = (Inl e, d')"
  shows "d' = d"
    and "collect_medicineData d (items input) = Inl e \<or>
         (\<exists>md. collect_medicineData d (items input) = Inr md \<and>
               ltZero ops (subNumber ops (in_payment_received input) (totalAmount ops md)) \<and>
               e = PaymentLessThanTotal)"
  using assms
  by (auto simp: createSalesTransaction_def Let_def split: sum.splits if_splits prod.splits)

lemma createSalesTransaction_Inr:
  assumes "createSalesTransaction ops input d = (Inr t, d')"
  shows "\<exists>md d1.
           collect_medicineData d (items input) = Inr md \<and>
           \<not> ltZero ops (subNumber ops (in_payment_received input) (totalAmount ops md)) \<and>
           sale_id t = sales_transactions_id_seq d \<and>
           d1 = snd (insert_sales_transaction (in_patient_id input)
                       (toNumeric ops (totalAmount ops md)) (in_payment_method input)
                       (toNumeric ops (in_payment_received input))
                       (toNumeric ops (subNumber ops (in_payment_received input)
                                         (totalAmount ops md)))
                       COMPLETED (in_sale_notes input) d) \<and>
           d' = debit_stock (sale_id t) md
                  (insert_items ops (sale_id t) (itemsWithPrices ops md) d1)"
  using assms
  by (auto simp: createSalesTransaction_def Let_def insert_sales_transaction_def
           split: sum.splits if_splits prod.splits)

lemma createSalesTransaction_total:
  "(\<exists>e. createSalesTransaction ops input d = (Inl e, d)) \<or>
   (\<exists>t d'. createSalesTransaction ops input d = (Inr t, d'))"
  by (auto simp: createSalesTransaction_def Let_def split: sum.splits if_splits prod.splits)

text \<open>
  C3. Sale atomicity on validation failure. Whenever createSalesTransaction throws, the
  store it leaves is the store it was given: no sales_transactions row, no
  sales_transaction_items row and no stock_transactions row has been written and no
  current_stock has changed; and what it throws is one of the three validation errors.
  Each validation failure does make it throw: a cart with a line whose medicine is
  unknown or short of stock, and a payment below the computed total.
\<close>

theorem createSalesTransaction_failure_persists_nothing:
  "(createSalesTransaction ops input d = (Inl e, d') \<longrightarrow>
      d' = d \<and>
      ((\<exists>k. e = MedicineNotFound k) \<or> (\<exists>n a r. e = InsufficientStockFor n a r) \<or>
       e = PaymentLessThanTotal))
   \<and> (\<not> list_all (line_ok d) (items input) \<longrightarrow>
        (\<exists>e. createSalesTransaction ops input d = (Inl e, d)))
   \<and> (collect_medicineData d (items input) = Inr md \<and>
      ltZero ops (subNumber ops (in_payment_received input) (totalAmount ops md)) \<longrightarrow>
        createSalesTransaction ops input d = (Inl PaymentLessThanTotal, d))"
proof (intro conjI impI)
  assume a: "createSalesTransaction ops input d = (Inl e, d')"
  show "d' = d" by (rule createSalesTransaction_Inl(1) [OF a])
  show "(\<exists>k. e = MedicineNotFound k) \<or> (\<exists>n a r. e = InsufficientStockFor n a r) \<or>
        e = PaymentLessThanTotal"
    using createSalesTransaction_Inl(2) [OF a] collect_medicineData_error [of d "items input" e]
    by blast
next
  assume "\<not> list_all (line_ok d) (items input)"
  from collect_medicineData_Inl [OF this] obtain e
    where "collect_medicineData d (items input) = Inl e" ..
  then show "\<exists>e. createSalesTransaction ops input d = (Inl e, d)"
    by (simp add: createSalesTransaction_def)
next
  assume "collect_medicineData d (items input) = Inr md \<and>
      ltZero ops (subNumber ops (in_payment_received input) (totalAmount ops md))"
  then show "createSalesTransaction ops input d = (Inl PaymentLessThanTotal, d)"
    by (simp add: createSalesTransaction_def Let_def)
qed


theorem createSalesTransaction_failure_persists_nothing_witness:
  "createSalesTransaction hundredths_ops (sale_input 2000000 [(1, 2), (99999, 1)]) test_db =
     (Inl (MedicineNotFound 99999), test_db)
   \<and> createSalesTransaction hundredths_ops (sale_input 2000000 [(2, 1), (1, 200)]) test_db =
     (Inl (InsufficientStockFor ''Paracetamol'' 100 200), test_db)
   \<and> createSalesTransaction hundredths_ops (sale_input 100000 [(1, 1)]) test_db =
     (Inl PaymentLessThanTotal, test_db)"
proof -
  let ?ops = hundredths_ops
  let ?unknown = "sale_input 2000000 [(1, 2), (99999, 1)]"
  let ?short = "sale_input 2000000 [(2, 1), (1, 200)]"
  let ?poor = "sale_input 100000 [(1, 1)]"
  let ?md = "[(\<lparr>med_id = 1, name = ''Paracetamol'', unit = ''tablet'', price = 500000,
               minimum_stock = 10, current_stock = 100\<rparr>, 1 :: int)]"
  have unknown: "\<not> list_all (line_ok test_db) (items ?unknown)"
    by (simp add: sale_input_def line_ok_def select_medicine_def test_db_def)
  have short: "\<not> list_all (line_ok test_db) (items ?short)"
    by (simp add: sale_input_def line_ok_def select_medicine_def test_db_def)
  have poor: "collect_medicineData test_db (items ?poor) = Inr ?md \<and>
      ltZero ?ops (subNumber ?ops (in_payment_received ?poor) (totalAmount ?ops ?md))"
    by (simp add: sale_input_def select_medicine_def test_db_def hundredths_ops_def
          totalAmount_def)
  have 1: "createSalesTransaction ?ops ?unknown test_db = (Inl (MedicineNotFound 99999), test_db)"
    using unknown
      createSalesTransaction_failure_persists_nothing
        [of ?ops ?unknown test_db "MedicineNotFound 99999" test_db ?md]
    by (simp add: createSalesTransaction_def sale_input_def select_medicine_def test_db_def)
  have 2: "createSalesTransaction ?ops ?short test_db =
             (Inl (InsufficientStockFor ''Paracetamol'' 100 200), test_db)"
    using short
      createSalesTransaction_failure_persists_nothing
        [of ?ops ?short test_db "InsufficientStockFor ''Paracetamol'' 100 200" test_db ?md]
    by (simp add: createSalesTransaction_def sale_input_def select_medicine_def test_db_def)
  have 3: "createSalesTransaction ?ops ?poor test_db = (Inl PaymentLessThanTotal, test_db)"
    using poor
      createSalesTransaction_failure_persists_nothing
        [of ?ops ?poor test_db PaymentLessThanTotal test_db ?md]
    by blast
  from 1 2 3 show ?thesis by blast
qed

section \<open>The item loop and the debit loop\<close>

lemma insert_items_frame:
  "medicinesTable (insert_items ops tid ips d) = medicinesTable d"
  "stockTransactionsTable (insert_items ops tid ips d) = stockTransactionsTable d"
  "salesTransactionsTable (insert_items ops tid ips d) = salesTransactionsTable d"
  "stock_transactions_id_seq (insert_items ops tid ips d) = stock_transactions_id_seq d"
  "sales_transactions_id_seq (insert_items ops tid ips d) = sales_transactions_id_seq d"
  by (induction ips arbitrary: d) (simp_all add: insert_sales_transaction_item_def)

lemma insert_items_rows:
  "\<exists>new. salesTransactionItemsTable (insert_items ops tid ips d) =
            salesTransactionItemsTable d @ new \<and>
         map item_line new =
           map (\<lambda>ip. (tid, ip_medicine_id ip, ip_quantity ip,
                       toNumeric ops (ip_unit_price ip), toNumeric ops (ip_total_price ip))) ips"
proof (induction ips arbitrary: d)
  case Nil
  show ?case by simp
next
  case (Cons ip ips)
  let ?d1 = "insert_sales_transaction_item tid (ip_medicine_id ip) (ip_quantity ip)
               (toNumeric ops (ip_unit_price ip)) (toNumeric ops (ip_total_price ip)) d"
  from Cons.IH [of ?d1] obtain new where
    new: "salesTransactionItemsTable (insert_items ops tid ips ?d1) =
            salesTransactionItemsTable ?d1 @ new"
      "map item_line new =
         map (\<lambda>ip. (tid, ip_medicine_id ip, ip_quantity ip,
                     toNumeric ops (ip_unit_price ip), toNumeric ops (ip_total_price ip))) ips"
    by blast
  let ?row = "\<lparr>item_id = sales_transaction_items_id_seq d, transaction_id = tid,
               medicine_id = ip_medicine_id ip, quantity = ip_quantity ip,
               unit_price = toNumeric ops (ip_unit_price ip),
               total_price = toNumeric ops (ip_total_price ip)\<rparr>"
  have "salesTransactionItemsTable (insert_items ops tid (ip # ips) d) =
          salesTransactionItemsTable d @ (?row # new)"
    using new(1) by (simp add: insert_sales_transaction_item_def)
  moreover have "map item_line (?row # new) =
      map (\<lambda>ip. (tid, ip_medicine_id ip, ip_quantity ip,
                  toNumeric ops (ip_unit_price ip), toNumeric ops (ip_total_price ip))) (ip # ips)"
    using new(2) by (simp add: item_line_def)
  ultimately show ?case by blast
qed

lemma debit_stock_frame:
  "salesTransactionsTable (debit_stock tid md d) = salesTransactionsTable d"
  "salesTransactionItemsTable (debit_stock tid md d) = salesTransactionItemsTable d"
  "sales_transactions_id_seq (debit_stock tid md d) = sales_transactions_id_seq d"
  "sales_transaction_items_id_seq (debit_stock tid md d) = sales_transaction_items_id_seq d"
  by (induction md arbitrary: d)
     (auto simp: insert_stock_transaction_def update_current_stock_def Let_def)

lemma stock_of_debit_stock:
  "stock_of (debit_stock tid md d) k =
     (case last_debit k md of None \<Rightarrow> stock_of d k
      | Some v \<Rightarrow> map_option (\<lambda>_. v) (stock_of d k))"
proof (induction md arbitrary: d)
  case Nil
  show ?case by simp
next
  case (Cons a md)
  obtain med q where a: "a = (med, q)" by (cases a)
  show ?case
    unfolding a
    by (simp add: Cons.IH stock_of_insert_stock_transaction stock_of_update_current_stock
          option.map_comp comp_def split: option.splits)
qed

lemma ledger_debit_stock:
  "map movement (stockTransactionsTable (debit_stock tid md d)) =
     map movement (stockTransactionsTable d) @
       map (\<lambda>(med, q). (med_id med, OUT, q, Some (''Sales transaction #'' @ show_nat tid))) md"
proof (induction md arbitrary: d)
  case Nil
  show ?case by simp
next
  case (Cons a md)
  obtain med q where a: "a = (med, q)" by (cases a)
  show ?case
    unfolding a
    by (simp add: Cons.IH ledger_insert_stock_transaction ledger_update_current_stock)
qed

lemma stock_of_hd:
  "line_ok d i \<Longrightarrow>
     stock_of d (ci_medicine_id i) =
       Some (current_stock (hd (select_medicine d (ci_medicine_id i)))) \<and>
     med_id (hd (select_medicine d (ci_medicine_id i))) = ci_medicine_id i"
proof -
  assume ok: "line_ok d i"
  then obtain m ms where sel: "select_medicine d (ci_medicine_id i) = m # ms"
    by (auto simp: line_ok_def split: list.splits)
  then have "m \<in> set (filter (\<lambda>m. med_id m = ci_medicine_id i) (medicinesTable d))"
    by (simp add: select_medicine_def)
  then have "med_id m = ci_medicine_id i" by simp
  with sel show ?thesis by (simp add: stock_of_def)
qed

lemma last_debit_cart:
  "list_all (line_ok d) cart \<Longrightarrow>
     last_debit k (map (\<lambda>i. (hd (select_medicine d (ci_medicine_id i)), ci_quantity i)) cart) =
       (case last_quantity k cart of None \<Rightarrow> None
        | Some q \<Rightarrow> map_option (\<lambda>s. s - q) (stock_of d k))"
proof (induction cart)
  case Nil
  show ?case by simp
next
  case (Cons i cart)
  then have ok: "line_ok d i" and rest: "list_all (line_ok d) cart" by simp_all
  note hd = stock_of_hd [OF ok]
  show ?case
  proof (cases "last_quantity k cart")
    case None
    with Cons.IH [OF rest] hd show ?thesis by auto
  next
    case (Some q)
    have "\<exists>s. stock_of d k = Some s" using Some rest
    proof (induction cart)
      case Nil
      then show ?case by simp
    next
      case (Cons j cart)
      then show ?case
        using stock_of_hd [of d j] by (auto split: option.splits if_splits)
    qed
    with Some Cons.IH [OF rest] show ?thesis by auto
  qed
qed


lemma insert_sales_transaction_frame:
  "medicinesTable (snd (insert_sales_transaction p t m r c s n d)) = medicinesTable d"
  "stockTransactionsTable (snd (insert_sales_transaction p t m r c s n d)) = stockTransactionsTable d"
  "salesTransactionItemsTable (snd (insert_sales_transaction p t m r c s n d)) =
     salesTransactionItemsTable d"
  by (simp_all add: insert_sales_transaction_def Let_def)

lemma stock_of_cong:
  "medicinesTable d' = medicinesTable d \<Longrightarrow> stock_of d' k = stock_of d k"
  by (simp add: stock_of_def select_medicine_def)

lemma createSalesTransaction_effect:
  assumes res: "createSalesTransaction ops input d = (Inr t, d')"
  shows "list_all (line_ok d) (items input)"
    and "stock_of d' k =
           (case last_quantity k (items input) of
              None \<Rightarrow> stock_of d k
            | Some q \<Rightarrow> map_option (\<lambda>s. s - q) (stock_of d k))"
    and "map movement (stockTransactionsTable d') =
           map movement (stockTransactionsTable d) @
             map (\<lambda>i. (ci_medicine_id i, OUT, ci_quantity i,
                        Some (''Sales transaction #'' @ show_nat (sale_id t))))
                 (items input)"
proof -
  let ?md = "map (\<lambda>i. (hd (select_medicine d (ci_medicine_id i)), ci_quantity i)) (items input)"
  from createSalesTransaction_Inr [OF res] obtain md d1 where
    md: "collect_medicineData d (items input) = Inr md"
    and meds1: "medicinesTable d1 = medicinesTable d"
    and ledger1: "stockTransactionsTable d1 = stockTransactionsTable d"
    and d': "d' = debit_stock (sale_id t) md
                (insert_items ops (sale_id t) (itemsWithPrices ops md) d1)"
    by (metis insert_sales_transaction_frame(1,2))
  show ok: "list_all (line_ok d) (items input)"
    by (rule collect_medicineData_shape(1) [OF md])
  have shape: "md = ?md" by (rule collect_medicineData_shape(2) [OF md])
  let ?d2 = "insert_items ops (sale_id t) (itemsWithPrices ops ?md) d1"
  have meds: "medicinesTable ?d2 = medicinesTable d"
    by (simp add: insert_items_frame meds1)
  have ledger: "stockTransactionsTable ?d2 = stockTransactionsTable d"
    by (simp add: insert_items_frame ledger1)
  show "stock_of d' k =
           (case last_quantity k (items input) of
              None \<Rightarrow> stock_of d k
            | Some q \<Rightarrow> map_option (\<lambda>s. s - q) (stock_of d k))"
    unfolding d' shape stock_of_debit_stock last_debit_cart [OF ok] stock_of_cong [OF meds]
    by (auto simp: option.map_comp comp_def split: option.splits)
  have lines: "map (\<lambda>(med, q). (med_id med, OUT, q,
                       Some (''Sales transaction #'' @ show_nat (sale_id t)))) ?md =
          map (\<lambda>i. (ci_medicine_id i, OUT, ci_quantity i,
                     Some (''Sales transaction #'' @ show_nat (sale_id t)))) (items input)"
    using ok stock_of_hd [of d] by (induction "items input") (auto simp: list_all_iff)
  show "map movement (stockTransactionsTable d') =
           map movement (stockTransactionsTable d) @
             map (\<lambda>i. (ci_medicine_id i, OUT, ci_quantity i,
                        Some (''Sales transaction #'' @ show_nat (sale_id t))))
                 (items input)"
    unfolding d' shape ledger_debit_stock ledger lines ..
qed

text \<open>
  C9. Duplicate cart lines. Each line of the cart is checked on its own against the
  stock read before any write. When every line passes that check (whatever the lines
  for one medicine add up to) the only error left is the payment error; and when the
  sale completes, a medicine named by the cart ends with its pre-sale stock minus the
  quantity of the \<^emph>\<open>last\<close> line that names it, while the ledger receives one OUT
  row per line, in cart order.
\<close>

theorem createSalesTransaction_checks_and_debits_each_line_from_the_snapshot:
  assumes ok: "list_all (line_ok d) (items input)"
  shows "createSalesTransaction ops input d = (Inl PaymentLessThanTotal, d) \<or>
         (\<exists>t d'. createSalesTransaction ops input d = (Inr t, d') \<and>
            (\<forall>k. stock_of d' k =
                   (case last_quantity k (items input) of
                      None \<Rightarrow> stock_of d k
                    | Some q \<Rightarrow> map_option (\<lambda>s. s - q) (stock_of d k))) \<and>
            map movement (stockTransactionsTable d') =
              map movement (stockTransactionsTable d) @
                map (\<lambda>i. (ci_medicine_id i, OUT, ci_quantity i,
                           Some (''Sales transaction #'' @ show_nat (sale_id t))))
                    (items input))"
proof -
  from createSalesTransaction_total [of ops input d] show ?thesis
  proof
    assume "\<exists>e. createSalesTransaction ops input d = (Inl e, d)"
    then obtain e where e: "createSalesTransaction ops input d = (Inl e, d)" ..
    from createSalesTransaction_Inl(2) [OF e] collect_medicineData_Inr [OF ok]
    have "e = PaymentLessThanTotal" by auto
    with e show ?thesis by simp
  next
    assume "\<exists>t d'. createSalesTransaction ops input d = (Inr t, d')"
    then obtain t d' where res: "createSalesTransaction ops input d = (Inr t, d')" by blast
    from res createSalesTransaction_effect(2,3) [OF res] show ?thesis by blast
  qed
qed


theorem createSalesTransaction_checks_and_debits_each_line_from_the_snapshot_witness:
  "list_all (line_ok test_db) (items (sale_input 100000000 [(1, 60), (1, 60)])) \<and>
   stock_of test_db 1 = Some 100 \<and>
   (\<exists>t d'. createSalesTransaction hundredths_ops (sale_input 100000000 [(1, 60), (1, 60)]) test_db =
              (Inr t, d') \<and>
            stock_of d' 1 = Some 40 \<and>
            map movement (stockTransactionsTable d') =
              [(1, OUT, 60, Some ''Sales transaction #1''),
               (1, OUT, 60, Some ''Sales transaction #1'')])"
proof -
  let ?input = "sale_input 100000000 [(1, 60), (1, 60)]"
  have ok: "list_all (line_ok test_db) (items ?input)"
    by (simp add: sale_input_def line_ok_def select_medicine_def test_db_def)
  have paid: "fst (createSalesTransaction hundredths_ops ?input test_db) \<noteq> Inl PaymentLessThanTotal"
    by (simp add: createSalesTransaction_def sale_input_def select_medicine_def test_db_def
          hundredths_ops_def totalAmount_def Let_def split: prod.splits)
  have before: "stock_of test_db 1 = Some 100"
    by (simp add: stock_of_def select_medicine_def test_db_def)
  from createSalesTransaction_checks_and_debits_each_line_from_the_snapshot
         [OF ok, of hundredths_ops] paid
  obtain t d' where
    res: "createSalesTransaction hundredths_ops ?input test_db = (Inr t, d')"
    and stock: "\<forall>k. stock_of d' k =
                  (case last_quantity k (items ?input) of
                     None \<Rightarrow> stock_of test_db k
                   | Some q \<Rightarrow> map_option (\<lambda>s. s - q) (stock_of test_db k))"
    and ledger: "map movement (stockTransactionsTable d') =
             map movement (stockTransactionsTable test_db) @
               map (\<lambda>i. (ci_medicine_id i, OUT, ci_quantity i,
                          Some (''Sales transaction #'' @ show_nat (sale_id t))))
                   (items ?input)"
    by auto
  from createSalesTransaction_Inr [OF res] have "sale_id t = 1"
    by (auto simp: test_db_def)
  with ledger have l: "map movement (stockTransactionsTable d') =
              [(1, OUT, 60, Some ''Sales transaction #1''),
               (1, OUT, 60, Some ''Sales transaction #1'')]"
    by (simp add: test_db_def sale_input_def show_nat.simps)
  from stock have "stock_of d' 1 =
                  (case last_quantity 1 (items ?input) of
                     None \<Rightarrow> stock_of test_db 1
                   | Some q \<Rightarrow> map_option (\<lambda>s. s - q) (stock_of test_db 1))"
    by blast
  with before have s: "stock_of d' 1 = Some 40"
    by (simp add: sale_input_def)
  show ?thesis
  proof (intro conjI exI)
    show "list_all (line_ok test_db) (items ?input)" by (rule ok)
    show "stock_of test_db 1 = Some 100" by (rule before)
    show "createSalesTransaction hundredths_ops ?input test_db = (Inr t, d')" by (rule res)
    show "stock_of d' 1 = Some 40" by (rule s)
    show "map movement (stockTransactionsTable d') =
              [(1, OUT, 60, Some ''Sales transaction #1''),
               (1, OUT, 60, Some ''Sales transaction #1'')]" by (rule l)
  qed
qed


section \<open>The loop of cancelSalesTransaction\<close>

lemma restore_stock_frame:
  "salesTransactionsTable (restore_stock tid its d) = salesTransactionsTable d"
  "salesTransactionItemsTable (restore_stock tid its d) = salesTransactionItemsTable d"
  "sales_transactions_id_seq (restore_stock tid its d) = sales_transactions_id_seq d"
  "sales_transaction_items_id_seq (restore_stock tid its d) = sales_transaction_items_id_seq d"
  by (induction its arbitrary: d)
     (auto simp: restore_step_def insert_stock_transaction_def update_current_stock_def Let_def
           split: list.splits)

lemma update_status_frame:
  "medicinesTable (update_status k s d) = medicinesTable d"
  "stockTransactionsTable (update_status k s d) = stockTransactionsTable d"
  "salesTransactionItemsTable (update_status k s d) = salesTransactionItemsTable d"
  by (simp_all add: update_status_def)

lemma select_medicine_restore_step_empty:
  "select_medicine (restore_step tid item d) k = [] \<longleftrightarrow> select_medicine d k = []"
  by (cases "select_medicine d (medicine_id item)")
     (simp_all add: restore_step_def select_medicine_insert_stock_transaction
        select_medicine_update_current_stock)

lemma stock_of_restore_step:
  "stock_of (restore_step tid item d) k =
     (if medicine_id item = k then map_option (\<lambda>s. s + quantity item) (stock_of d k)
      else stock_of d k)"
  by (cases "select_medicine d (medicine_id item)")
     (auto simp: restore_step_def stock_of_def select_medicine_insert_stock_transaction
        select_medicine_update_current_stock)

lemma ledger_restore_step:
  "map movement (stockTransactionsTable (restore_step tid item d)) =
     map movement (stockTransactionsTable d) @
       (if select_medicine d (medicine_id item) = [] then []
        else [(medicine_id item, IN, quantity item,
               Some (''Cancelled sales transaction #'' @ show_nat tid))])"
  by (cases "select_medicine d (medicine_id item)")
     (simp_all add: restore_step_def ledger_insert_stock_transaction ledger_update_current_stock)

lemma stock_of_restore_stock:
  "stock_of (restore_stock tid its d) k =
     map_option (\<lambda>s. s + sum_list (map quantity (filter (\<lambda>i. medicine_id i = k) its)))
       (stock_of d k)"
proof (induction its arbitrary: d)
  case Nil
  show ?case by (simp add: option.map_ident)
next
  case (Cons item its)
  show ?case
    unfolding restore_stock.simps Cons.IH stock_of_restore_step
    by (simp add: option.map_comp comp_def add.assoc)
qed

lemma ledger_restore_stock:
  "map movement (stockTransactionsTable (restore_stock tid its d)) =
     map movement (stockTransactionsTable d) @
       map (\<lambda>i. (medicine_id i, IN, quantity i,
                  Some (''Cancelled sales transaction #'' @ show_nat tid)))
           (filter (\<lambda>i. select_medicine d (medicine_id i) \<noteq> []) its)"
proof (induction its arbitrary: d)
  case Nil
  show ?case by simp
next
  case (Cons item its)
  show ?case
    unfolding restore_stock.simps Cons.IH ledger_restore_step select_medicine_restore_step_empty
    by simp
qed

lemma filter_set_status:
  "filter (\<lambda>t. sale_id t = k') (map (\<lambda>t. if sale_id t = k then t\<lparr>status := s\<rparr> else t) ts) =
     (if k' = k then map (\<lambda>t. t\<lparr>status := s\<rparr>) (filter (\<lambda>t. sale_id t = k) ts)
      else filter (\<lambda>t. sale_id t = k') ts)"
  by (induction ts) auto

lemma select_sales_transaction_update_status:
  "select_sales_transaction (update_status k s d) k' =
     (if k' = k then map (\<lambda>t. t\<lparr>status := s\<rparr>) (select_sales_transaction d k)
      else select_sales_transaction d k')"
  by (simp add: select_sales_transaction_def update_status_def filter_set_status)

lemma is_cancelled_cong:
  "salesTransactionsTable d' = salesTransactionsTable d \<Longrightarrow> is_cancelled d' k = is_cancelled d k"
  by (simp add: is_cancelled_def select_sales_transaction_def)

lemma select_medicine_cong:
  "medicinesTable d' = medicinesTable d \<Longrightarrow> select_medicine d' k = select_medicine d k"
  by (simp add: select_medicine_def)

lemma cancelSalesTransaction_open:
  assumes "select_sales_transaction d tid = t # ts" and "status t \<noteq> CANCELLED"
  shows "cancelSalesTransaction tid d =
           (True, restore_stock tid (select_items d tid) (update_status tid CANCELLED d))"
  using assms by (simp add: cancelSalesTransaction_def Let_def)

lemma cancelSalesTransaction_effect:
  assumes sel: "select_sales_transaction d tid = t # ts" and st: "status t \<noteq> CANCELLED"
  shows "fst (cancelSalesTransaction tid d)"
    and "is_cancelled (snd (cancelSalesTransaction tid d)) tid"
    and "map movement (stockTransactionsTable (snd (cancelSalesTransaction tid d))) =
           map movement (stockTransactionsTable d) @
             map (\<lambda>i. (medicine_id i, IN, quantity i,
                        Some (''Cancelled sales transaction #'' @ show_nat tid)))
                 (filter (\<lambda>i. select_medicine d (medicine_id i) \<noteq> []) (select_items d tid))"
    and "stock_of (snd (cancelSalesTransaction tid d)) k =
           map_option
             (\<lambda>s. s + sum_list (map quantity
                          (filter (\<lambda>i. medicine_id i = k) (select_items d tid))))
             (stock_of d k)"
proof -
  let ?d1 = "update_status tid CANCELLED d"
  let ?d' = "restore_stock tid (select_items d tid) ?d1"
  have res: "cancelSalesTransaction tid d = (True, ?d')"
    by (rule cancelSalesTransaction_open [OF sel st])
  then show "fst (cancelSalesTransaction tid d)" by simp
  have "is_cancelled ?d1 tid"
    by (simp add: is_cancelled_def select_sales_transaction_update_status sel)
  then show "is_cancelled (snd (cancelSalesTransaction tid d)) tid"
    by (simp add: res is_cancelled_cong [OF restore_stock_frame(1)])
  have m: "select_medicine ?d1 k = select_medicine d k" for k
    by (rule select_medicine_cong) (simp add: update_status_frame)
  show "map movement (stockTransactionsTable (snd (cancelSalesTransaction tid d))) =
           map movement (stockTransactionsTable d) @
             map (\<lambda>i. (medicine_id i, IN, quantity i,
                        Some (''Cancelled sales transaction #'' @ show_nat tid)))
                 (filter (\<lambda>i. select_medicine d (medicine_id i) \<noteq> []) (select_items d tid))"
    unfolding res snd_conv ledger_restore_stock m by (simp add: update_status_frame)
  show "stock_of (snd (cancelSalesTransaction tid d)) k =
           map_option
             (\<lambda>s. s + sum_list (map quantity
                          (filter (\<lambda>i. medicine_id i = k) (select_items d tid))))
             (stock_of d k)"
    unfolding res snd_conv stock_of_restore_stock
    by (simp add: stock_of_cong [of ?d1 d] update_status_frame)
qed

text \<open>
  C10. Cancellation passes over vanished medicines. Cancelling a sale that is found and
  is not CANCELLED returns true and leaves the sale CANCELLED, whether or not the
  medicines of its lines are still in the store. The ledger receives one IN row, with
  the line's quantity, for exactly the lines whose medicine is found; a medicine that
  is found gets the quantities of its lines added to its stock; for a line whose
  medicine is not found nothing is restored, no row is appended and no error is
  raised.
\<close>

theorem cancelSalesTransaction_skips_vanished_medicines:
  assumes sel: "select_sales_transaction d tid = t # ts" and st: "status t \<noteq> CANCELLED"
  shows "\<exists>d'. cancelSalesTransaction tid d = (True, d') \<and>
           is_cancelled d' tid \<and>
           map movement (stockTransactionsTable d') =
             map movement (stockTransactionsTable d) @
               map (\<lambda>i. (medicine_id i, IN, quantity i,
                          Some (''Cancelled sales transaction #'' @ show_nat tid)))
                   (filter (\<lambda>i. select_medicine d (medicine_id i) \<noteq> []) (select_items d tid)) \<and>
           (\<forall>k. stock_of d' k =
                  map_option
                    (\<lambda>s. s + sum_list (map quantity
                                 (filter (\<lambda>i. medicine_id i = k) (select_items d tid))))
                    (stock_of d k))"
proof -
  note effect = cancelSalesTransaction_effect [OF sel st]
  from effect(1) have "cancelSalesTransaction tid d = (True, snd (cancelSalesTransaction tid d))"
    by (cases "cancelSalesTransaction tid d") simp
  with effect(2,3,4) show ?thesis by blast
qed

lemma sold_db_is_the_sale:
  "createSalesTransaction hundredths_ops (sale_input 5000000 [(1, 5), (2, 3)]) test_db =
     (Inr \<lparr>sale_id = 1, sale_patient_id = None, total_amount = 3400000,
           sale_payment_method = CASH, payment_received = 5000000,
           change_amount = 1600000, status = COMPLETED,
           sale_notes = Some ''Test transaction''\<rparr>, sold_db)"
  by (simp add: createSalesTransaction_def sale_input_def select_medicine_def test_db_def
        sold_db_def hundredths_ops_def totalAmount_def itemsWithPrices_def Let_def
        insert_sales_transaction_def insert_sales_transaction_item_def
        insert_stock_transaction_def update_current_stock_def show_nat.simps)

theorem cancelSalesTransaction_skips_vanished_medicines_witness:
  "select_sales_transaction vanished_db 1 \<noteq> [] \<and>
   status (hd (select_sales_transaction vanished_db 1)) \<noteq> CANCELLED \<and>
   map medicine_id (select_items vanished_db 1) = [1, 2] \<and>
   select_medicine vanished_db 1 = [] \<and>
   (\<exists>d'. cancelSalesTransaction 1 vanished_db = (True, d') \<and>
         is_cancelled d' 1 \<and>
         map movement (stockTransactionsTable d') =
           map movement (stockTransactionsTable vanished_db) @
             [(2, IN, 3, Some ''Cancelled sales transaction #1'')] \<and>
         stock_of d' 1 = None \<and> stock_of d' 2 = Some 50)"
proof -
  let ?t = "\<lparr>sale_id = 1, sale_patient_id = None, total_amount = 3400000 :: int,
           sale_payment_method = CASH, payment_received = 5000000,
           change_amount = 1600000, status = COMPLETED,
           sale_notes = Some ''Test transaction''\<rparr>"
  have sel: "select_sales_transaction vanished_db 1 = ?t # []"
    by (simp add: select_sales_transaction_def vanished_db_def sold_db_def)
  have st: "status ?t \<noteq> CANCELLED" by simp
  have its: "map medicine_id (select_items vanished_db 1) = [1, 2]"
    by (simp add: select_items_def vanished_db_def sold_db_def)
  have gone: "select_medicine vanished_db 1 = []"
    by (simp add: select_medicine_def vanished_db_def sold_db_def)
  from cancelSalesTransaction_skips_vanished_medicines [OF sel st]
  obtain d' where
    res: "cancelSalesTransaction 1 vanished_db = (True, d')"
    and c: "is_cancelled d' 1"
    and l: "map movement (stockTransactionsTable d') =
             map movement (stockTransactionsTable vanished_db) @
               map (\<lambda>i. (medicine_id i, IN, quantity i,
                          Some (''Cancelled sales transaction #'' @ show_nat 1)))
                   (filter (\<lambda>i. select_medicine vanished_db (medicine_id i) \<noteq> [])
                      (select_items vanished_db 1))"
    and s: "\<forall>k. stock_of d' k =
                  map_option
                    (\<lambda>s. s + sum_list (map quantity
                                 (filter (\<lambda>i. medicine_id i = k) (select_items vanished_db 1))))
                    (stock_of vanished_db k)"
    by blast
  have l': "map movement (stockTransactionsTable d') =
           map movement (stockTransactionsTable vanished_db) @
             [(2, IN, 3, Some ''Cancelled sales transaction #1'')]"
    unfolding l
    by (simp add: select_items_def select_medicine_def vanished_db_def sold_db_def
          show_nat.simps)
  from s have "stock_of d' 1 = map_option
                    (\<lambda>s. s + sum_list (map quantity
                                 (filter (\<lambda>i. medicine_id i = 1) (select_items vanished_db 1))))
                    (stock_of vanished_db 1)" by blast
  then have s1: "stock_of d' 1 = None"
    by (simp add: stock_of_def select_medicine_def vanished_db_def sold_db_def)
  from s have "stock_of d' 2 = map_option
                    (\<lambda>s. s + sum_list (map quantity
                                 (filter (\<lambda>i. medicine_id i = 2) (select_items vanished_db 1))))
                    (stock_of vanished_db 2)" by blast
  then have s2: "stock_of d' 2 = Some 50"
    by (simp add: stock_of_def select_medicine_def select_items_def vanished_db_def sold_db_def)
  show ?thesis
  proof (intro conjI exI)
    show "select_sales_transaction vanished_db 1 \<noteq> []" using sel by simp
    show "status (hd (select_sales_transaction vanished_db 1)) \<noteq> CANCELLED" using sel by simp
    show "map medicine_id (select_items vanished_db 1) = [1, 2]" by (rule its)
    show "select_medicine vanished_db 1 = []" by (rule gone)
    show "cancelSalesTransaction 1 vanished_db = (True, d')" by (rule res)
    show "is_cancelled d' 1" by (rule c)
    show "map movement (stockTransactionsTable d') =
           map movement (stockTransactionsTable vanished_db) @
             [(2, IN, 3, Some ''Cancelled sales transaction #1'')]" by (rule l')
    show "stock_of d' 1 = None" by (rule s1)
    show "stock_of d' 2 = Some 50" by (rule s2)
  qed
qed


section \<open>What each call does to the sales tables\<close>

lemma createStockTransaction_sales_frame:
  "salesTransactionsTable (snd (createStockTransaction input d)) = salesTransactionsTable d"
  "salesTransactionItemsTable (snd (createStockTransaction input d)) =
     salesTransactionItemsTable d"
  by (auto simp: createStockTransaction_def insert_stock_transaction_def
        update_current_stock_def Let_def split: list.splits)

lemma stock_createTransaction_sales_frame:
  "salesTransactionsTable (snd (stock_createTransaction input d)) = salesTransactionsTable d"
  "salesTransactionItemsTable (snd (stock_createTransaction input d)) =
     salesTransactionItemsTable d"
  by (auto simp: stock_createTransaction_def createStockTransaction_sales_frame
        split: list.splits)

lemma createSalesTransaction_sales_rows:
  "\<exists>rows. salesTransactionsTable (snd (createSalesTransaction ops input d)) =
            salesTransactionsTable d @ rows"
proof -
  from createSalesTransaction_total [of ops input d] show ?thesis
  proof
    assume "\<exists>e. createSalesTransaction ops input d = (Inl e, d)"
    then show ?thesis by auto
  next
    assume "\<exists>t d'. createSalesTransaction ops input d = (Inr t, d')"
    then obtain t d' where res: "createSalesTransaction ops input d = (Inr t, d')" by blast
    from createSalesTransaction_Inr [OF res] show ?thesis
      by (auto simp: res debit_stock_frame insert_items_frame insert_sales_transaction_def Let_def)
  qed
qed

lemma createSalesTransaction_item_rows:
  "\<exists>rows. salesTransactionItemsTable (snd (createSalesTransaction ops input d)) =
            salesTransactionItemsTable d @ rows"
proof -
  from createSalesTransaction_total [of ops input d] show ?thesis
  proof
    assume "\<exists>e. createSalesTransaction ops input d = (Inl e, d)"
    then show ?thesis by auto
  next
    assume "\<exists>t d'. createSalesTransaction ops input d = (Inr t, d')"
    then obtain t d' where res: "createSalesTransaction ops input d = (Inr t, d')" by blast
    from createSalesTransaction_Inr [OF res] obtain md d1 where
      d1: "salesTransactionItemsTable d1 = salesTransactionItemsTable d"
      and d': "d' = debit_stock (sale_id t) md
                  (insert_items ops (sale_id t) (itemsWithPrices ops md) d1)"
      by (metis insert_sales_transaction_frame(3))
    from insert_items_rows [of ops "sale_id t" "itemsWithPrices ops md" d1]
    show ?thesis by (auto simp: res d' d1 debit_stock_frame)
  qed
qed

lemma sales_createTransaction_rows:
  "\<exists>rows. salesTransactionsTable (snd (sales_createTransaction ops input d)) =
            salesTransactionsTable d @ rows"
  "\<exists>rows. salesTransactionItemsTable (snd (sales_createTransaction ops input d)) =
            salesTransactionItemsTable d @ rows"
  using createSalesTransaction_sales_rows [of ops input d]
    createSalesTransaction_item_rows [of ops input d]
  by (auto simp: sales_createTransaction_def split: list.splits)

lemma cancelSalesTransaction_items_frame:
  "salesTransactionItemsTable (snd (cancelSalesTransaction tid d)) = salesTransactionItemsTable d"
  by (simp add: cancelSalesTransaction_def Let_def restore_stock_frame update_status_frame
        split: list.splits)

section \<open>CANCELLED is terminal\<close>

lemma is_cancelled_append:
  "is_cancelled d tid \<Longrightarrow> salesTransactionsTable d' = salesTransactionsTable d @ rows \<Longrightarrow>
     is_cancelled d' tid"
  by (auto simp: is_cancelled_def select_sales_transaction_def split: list.splits)

lemma is_cancelled_update_status:
  "is_cancelled d tid \<Longrightarrow> is_cancelled (update_status k CANCELLED d) tid"
  by (auto simp: is_cancelled_def select_sales_transaction_update_status split: list.splits)

lemma is_cancelled_cancelSalesTransaction:
  "is_cancelled d tid \<Longrightarrow> is_cancelled (snd (cancelSalesTransaction k d)) tid"
proof -
  assume c: "is_cancelled d tid"
  show ?thesis
  proof (cases "select_sales_transaction d k")
    case Nil
    with c show ?thesis by (simp add: cancelSalesTransaction_def)
  next
    case (Cons t ts)
    show ?thesis
    proof (cases "status t = CANCELLED")
      case True
      with Cons c show ?thesis by (simp add: cancelSalesTransaction_def)
    next
      case False
      have "is_cancelled (restore_stock k (select_items d k) (update_status k CANCELLED d)) tid"
        using is_cancelled_update_status [OF c, of k]
        by (simp add: is_cancelled_cong [OF restore_stock_frame(1)])
      with Cons False show ?thesis by (simp add: cancelSalesTransaction_open)
    qed
  qed
qed

lemma is_cancelled_run_operation:
  "is_cancelled d tid \<Longrightarrow> is_cancelled (run_operation ops d c) tid"
proof (cases c)
  case (StockCreateTransaction input)
  assume "is_cancelled d tid"
  then show ?thesis
    by (simp add: StockCreateTransaction
          is_cancelled_cong [OF stock_createTransaction_sales_frame(1)])
next
  case (SalesCreateTransaction input)
  assume c: "is_cancelled d tid"
  from sales_createTransaction_rows(1) [of ops input d] obtain rows where
    "salesTransactionsTable (snd (sales_createTransaction ops input d)) =
       salesTransactionsTable d @ rows" ..
  from is_cancelled_append [OF c this] show ?thesis by (simp add: SalesCreateTransaction)
next
  case (SalesCancelTransaction k)
  assume "is_cancelled d tid"
  then show ?thesis
    by (simp add: SalesCancelTransaction sales_cancelTransaction_def
          is_cancelled_cancelSalesTransaction)
qed

lemma is_cancelled_run_event:
  "is_cancelled d tid \<Longrightarrow> is_cancelled (run_event ops d e) tid"
proof (cases e)
  case (Call c)
  assume "is_cancelled d tid"
  then show ?thesis by (simp add: Call is_cancelled_run_operation)
next
  case (MedicinesWritten ms)
  assume "is_cancelled d tid"
  then show ?thesis
    by (simp add: MedicinesWritten is_cancelled_def select_sales_transaction_def)
qed

lemma is_cancelled_run_events:
  "is_cancelled d tid \<Longrightarrow> is_cancelled (run_events ops d es) tid"
  unfolding run_events_def
  by (induction es arbitrary: d) (simp_all add: is_cancelled_run_event)

lemma cancelSalesTransaction_False:
  "select_sales_transaction d tid = [] \<or> is_cancelled d tid \<Longrightarrow>
     cancelSalesTransaction tid d = (False, d)"
  by (auto simp: cancelSalesTransaction_def is_cancelled_def split: list.splits)

lemma cancelSalesTransaction_True:
  "fst (cancelSalesTransaction tid d) \<Longrightarrow> is_cancelled (snd (cancelSalesTransaction tid d)) tid"
proof -
  assume a: "fst (cancelSalesTransaction tid d)"
  then obtain t ts where sel: "select_sales_transaction d tid = t # ts"
    and st: "status t \<noteq> CANCELLED"
    by (auto simp: cancelSalesTransaction_def split: list.splits if_splits)
  have "is_cancelled (update_status tid CANCELLED d) tid"
    by (simp add: is_cancelled_def select_sales_transaction_update_status sel)
  then show ?thesis
    by (simp add: cancelSalesTransaction_open [OF sel st]
          is_cancelled_cong [OF restore_stock_frame(1)])
qed

text \<open>
  C6. Cancellation and the terminal state. cancelSalesTransaction returns false, and
  leaves the store as it was, when no sale has the id and when the sale is CANCELLED;
  these are the only two ways to false, and the result does not tell them apart. A
  sale that is CANCELLED stays CANCELLED through every sequence of calls of the core
  and writes to the medicines table, so after a cancellation that returned true a
  further cancellation of the same id returns false, whatever happened in between.
\<close>

theorem cancelSalesTransaction_false_and_terminal:
  "(select_sales_transaction d tid = [] \<longrightarrow> cancelSalesTransaction tid d = (False, d))
   \<and> (is_cancelled d tid \<longrightarrow> cancelSalesTransaction tid d = (False, d))
   \<and> (fst (cancelSalesTransaction tid d) \<longleftrightarrow>
        \<not> (select_sales_transaction d tid = [] \<or> is_cancelled d tid))
   \<and> (is_cancelled d tid \<longrightarrow> is_cancelled (run_events ops d es) tid)
   \<and> (fst (cancelSalesTransaction tid d) \<longrightarrow>
        cancelSalesTransaction tid (run_events ops (snd (cancelSalesTransaction tid d)) es) =
          (False, run_events ops (snd (cancelSalesTransaction tid d)) es))"
proof (intro conjI impI)
  assume "select_sales_transaction d tid = []"
  then show "cancelSalesTransaction tid d = (False, d)"
    by (simp add: cancelSalesTransaction_False)
next
  assume "is_cancelled d tid"
  then show "cancelSalesTransaction tid d = (False, d)"
    by (simp add: cancelSalesTransaction_False)
next
  show "fst (cancelSalesTransaction tid d) \<longleftrightarrow>
        \<not> (select_sales_transaction d tid = [] \<or> is_cancelled d tid)"
    by (auto simp: cancelSalesTransaction_def is_cancelled_def Let_def split: list.splits)
next
  assume "is_cancelled d tid"
  then show "is_cancelled (run_events ops d es) tid" by (rule is_cancelled_run_events)
next
  assume "fst (cancelSalesTransaction tid d)"
  then have "is_cancelled (snd (cancelSalesTransaction tid d)) tid"
    by (rule cancelSalesTransaction_True)
  then have "is_cancelled (run_events ops (snd (cancelSalesTransaction tid d)) es) tid"
    by (rule is_cancelled_run_events)
  then show "cancelSalesTransaction tid (run_events ops (snd (cancelSalesTransaction tid d)) es) =
          (False, run_events ops (snd (cancelSalesTransaction tid d)) es)"
    by (simp add: cancelSalesTransaction_False)
qed


theorem cancelSalesTransaction_false_and_terminal_witness:
  "cancelSalesTransaction 99999 test_db = (False, test_db) \<and>
   fst (cancelSalesTransaction 1 sold_db) \<and>
   is_cancelled (snd (cancelSalesTransaction 1 sold_db)) 1 \<and>
   cancelSalesTransaction 1 (snd (cancelSalesTransaction 1 sold_db)) =
     (False, snd (cancelSalesTransaction 1 sold_db)) \<and>
   cancelSalesTransaction 1
     (run_events hundredths_ops (snd (cancelSalesTransaction 1 sold_db))
        [Call (StockCreateTransaction (stock_input 1 IN 5)),
         Call (SalesCreateTransaction (sale_input 5000000 [(1, 5)])),
         MedicinesWritten []]) =
     (False,
      run_events hundredths_ops (snd (cancelSalesTransaction 1 sold_db))
        [Call (StockCreateTransaction (stock_input 1 IN 5)),
         Call (SalesCreateTransaction (sale_input 5000000 [(1, 5)])),
         MedicinesWritten []])"
proof -
  let ?es = "[Call (StockCreateTransaction (stock_input 1 IN 5)),
         Call (SalesCreateTransaction (sale_input 5000000 [(1, 5)])),
         MedicinesWritten []] :: (int, int) event list"
  let ?d1 = "snd (cancelSalesTransaction 1 sold_db)"
  have absent: "select_sales_transaction test_db 99999 = []"
    by (simp add: select_sales_transaction_def test_db_def)
  have first: "fst (cancelSalesTransaction 1 sold_db)"
    by (simp add: cancelSalesTransaction_def select_sales_transaction_def sold_db_def Let_def)
  have 1: "cancelSalesTransaction 99999 test_db = (False, test_db)"
    using absent
      cancelSalesTransaction_false_and_terminal [of test_db 99999 hundredths_ops ?es]
    by blast
  have 2: "cancelSalesTransaction 1 (run_events hundredths_ops ?d1 ?es) =
             (False, run_events hundredths_ops ?d1 ?es)"
    using first
      cancelSalesTransaction_false_and_terminal [of sold_db 1 hundredths_ops ?es]
    by blast
  have 3: "cancelSalesTransaction 1 (run_events hundredths_ops ?d1 []) =
             (False, run_events hundredths_ops ?d1 [])"
    using first
      cancelSalesTransaction_false_and_terminal [of sold_db 1 hundredths_ops "[]"]
    by blast
  then have 4: "cancelSalesTransaction 1 ?d1 = (False, ?d1)"
    by (simp add: run_events_def)
  have 5: "is_cancelled ?d1 1"
    by (rule cancelSalesTransaction_True [OF first])
  from 1 first 5 4 2 show ?thesis by (intro conjI)
qed


section \<open>Stock stays non-negative\<close>

lemma stock_nonneg_cong:
  "medicinesTable d' = medicinesTable d \<Longrightarrow> stock_nonneg d' = stock_nonneg d"
  by (simp add: stock_nonneg_def)

lemma items_positive_cong:
  "salesTransactionItemsTable d' = salesTransactionItemsTable d \<Longrightarrow>
     items_positive d' = items_positive d"
  by (simp add: items_positive_def)

lemma stock_nonneg_update_current_stock:
  "0 \<le> v \<Longrightarrow> stock_nonneg d \<Longrightarrow> stock_nonneg (update_current_stock k v d)"
  by (auto simp: stock_nonneg_def update_current_stock_def list_all_iff)

lemma stock_nonneg_insert_stock_transaction:
  "stock_nonneg (snd (insert_stock_transaction k ty q n d)) = stock_nonneg d"
  by (simp add: stock_nonneg_def insert_stock_transaction_def Let_def)

lemma select_medicine_nonneg:
  "stock_nonneg d \<Longrightarrow> select_medicine d k = m # ms \<Longrightarrow> 0 \<le> current_stock m"
proof -
  assume inv: "stock_nonneg d" and sel: "select_medicine d k = m # ms"
  from sel have "m \<in> set (filter (\<lambda>m. med_id m = k) (medicinesTable d))"
    by (simp add: select_medicine_def)
  then have "m \<in> set (medicinesTable d)" by simp
  with inv show ?thesis by (simp add: stock_nonneg_def list_all_iff)
qed

lemma stock_nonneg_createStockTransaction:
  assumes q: "0 < in_quantity input" and inv: "stock_nonneg d"
  shows "stock_nonneg (snd (createStockTransaction input d))"
proof (cases "select_medicine d (in_medicine_id input)")
  case Nil
  with inv show ?thesis by (simp add: createStockTransaction_def)
next
  case (Cons m ms)
  note m = select_medicine_nonneg [OF inv Cons]
  show ?thesis
  proof (cases "in_type input = OUT \<and> current_stock m < in_quantity input")
    case True
    with Cons inv show ?thesis by (simp add: createStockTransaction_def)
  next
    case False
    let ?v = "current_stock m + (if in_type input = IN then in_quantity input
                                 else - in_quantity input)"
    have v: "0 \<le> ?v"
      using False m q by (cases "in_type input") auto
    have "snd (createStockTransaction input d) =
            update_current_stock (in_medicine_id input) ?v
              (snd (insert_stock_transaction (in_medicine_id input) (in_type input)
                      (in_quantity input) (in_notes input) d))"
      unfolding createStockTransaction_def Cons list.case if_not_P [OF False]
      by (simp add: Let_def split: prod.splits)
    with v inv show ?thesis
      by (simp add: stock_nonneg_update_current_stock stock_nonneg_insert_stock_transaction)
  qed
qed

lemma collect_medicineData_fits:
  "collect_medicineData d cart = Inr md \<Longrightarrow>
     list_all (\<lambda>(med, q). q \<le> current_stock med) md \<and> map snd md = map ci_quantity cart"
  by (induction cart arbitrary: md) (auto split: list.splits if_splits sum.splits)

lemma stock_nonneg_debit_stock:
  "list_all (\<lambda>(med, q). q \<le> current_stock med) md \<Longrightarrow> stock_nonneg d \<Longrightarrow>
     stock_nonneg (debit_stock tid md d)"
proof (induction md arbitrary: d)
  case Nil
  then show ?case by simp
next
  case (Cons a md)
  obtain med q where a: "a = (med, q)" by (cases a)
  from Cons.prems a have fit: "0 \<le> current_stock med - q"
    and rest: "list_all (\<lambda>(med, q). q \<le> current_stock med) md" by simp_all
  have "stock_nonneg
          (snd (insert_stock_transaction (med_id med) OUT q
                  (Some (''Sales transaction #'' @ show_nat tid))
                  (update_current_stock (med_id med) (current_stock med - q) d)))"
    using fit Cons.prems(2)
    by (simp add: stock_nonneg_insert_stock_transaction stock_nonneg_update_current_stock)
  from Cons.IH [OF rest this] show ?case by (simp add: a)
qed

lemma stock_nonneg_createSalesTransaction:
  assumes inv: "stock_nonneg d"
  shows "stock_nonneg (snd (createSalesTransaction ops input d))"
proof -
  from createSalesTransaction_total [of ops input d] show ?thesis
  proof
    assume "\<exists>e. createSalesTransaction ops input d = (Inl e, d)"
    with inv show ?thesis by auto
  next
    assume "\<exists>t d'. createSalesTransaction ops input d = (Inr t, d')"
    then obtain t d' where res: "createSalesTransaction ops input d = (Inr t, d')" by blast
    from createSalesTransaction_Inr [OF res] obtain md d1 where
      md: "collect_medicineData d (items input) = Inr md"
      and d1: "medicinesTable d1 = medicinesTable d"
      and d': "d' = debit_stock (sale_id t) md
                  (insert_items ops (sale_id t) (itemsWithPrices ops md) d1)"
      by (metis insert_sales_transaction_frame(1))
    have "stock_nonneg (insert_items ops (sale_id t) (itemsWithPrices ops md) d1)"
      using inv by (simp add: stock_nonneg_def insert_items_frame d1)
    with collect_medicineData_fits [OF md] show ?thesis
      by (simp add: res d' stock_nonneg_debit_stock)
  qed
qed

lemma items_positive_createSalesTransaction:
  assumes pos: "list_all (\<lambda>i. 0 < ci_quantity i) (items input)" and inv: "items_positive d"
  shows "items_positive (snd (createSalesTransaction ops input d))"
proof -
  from createSalesTransaction_total [of ops input d] show ?thesis
  proof
    assume "\<exists>e. createSalesTransaction ops input d = (Inl e, d)"
    with inv show ?thesis by auto
  next
    assume "\<exists>t d'. createSalesTransaction ops input d = (Inr t, d')"
    then obtain t d' where res: "createSalesTransaction ops input d = (Inr t, d')" by blast
    from createSalesTransaction_Inr [OF res] obtain md d1 where
      md: "collect_medicineData d (items input) = Inr md"
      and d1: "salesTransactionItemsTable d1 = salesTransactionItemsTable d"
      and d': "d' = debit_stock (sale_id t) md
                  (insert_items ops (sale_id t) (itemsWithPrices ops md) d1)"
      by (metis insert_sales_transaction_frame(3))
    from insert_items_rows [of ops "sale_id t" "itemsWithPrices ops md" d1] obtain rows where
      rows: "salesTransactionItemsTable (insert_items ops (sale_id t) (itemsWithPrices ops md) d1) =
               salesTransactionItemsTable d1 @ rows"
      and lines: "map item_line rows =
           map (\<lambda>ip. (sale_id t, ip_medicine_id ip, ip_quantity ip,
                       toNumeric ops (ip_unit_price ip), toNumeric ops (ip_total_price ip)))
               (itemsWithPrices ops md)"
      by blast
    have "map quantity rows = map (fst \<circ> snd \<circ> snd \<circ> item_line) rows"
      by (simp add: item_line_def comp_def)
    also have "\<dots> = map (fst \<circ> snd \<circ> snd) (map item_line rows)" by simp
    also have "\<dots> = map snd md"
      unfolding lines by (simp add: itemsWithPrices_def comp_def case_prod_unfold)
    also have "\<dots> = map ci_quantity (items input)"
      using collect_medicineData_fits [OF md] by simp
    finally have "map quantity rows = map ci_quantity (items input)" .
    moreover have "list_all (\<lambda>q. 0 < q) (map ci_quantity (items input))"
      using pos by (simp add: list_all_iff)
    ultimately have "list_all (\<lambda>q. 0 < q) (map quantity rows)" by simp
    then have "list_all (\<lambda>i. 0 < quantity i) rows"
      by (simp add: list_all_iff)
    with inv show ?thesis
      by (simp add: res d' debit_stock_frame rows d1 items_positive_def)
  qed
qed

lemma schema_quantities_positive:
  "createSalesTransactionInputSchema ops input = [] \<Longrightarrow>
     list_all (\<lambda>i. 0 < ci_quantity i) (items input)"
  by (auto simp: createSalesTransactionInputSchema_def list_all_iff split: if_splits)

lemma stock_nonneg_restore_stock:
  "list_all (\<lambda>i. 0 \<le> quantity i) its \<Longrightarrow> stock_nonneg d \<Longrightarrow>
     stock_nonneg (restore_stock tid its d)"
proof (induction its arbitrary: d)
  case Nil
  then show ?case by simp
next
  case (Cons item its)
  then have q: "0 \<le> quantity item" and rest: "list_all (\<lambda>i. 0 \<le> quantity i) its"
    by simp_all
  have "stock_nonneg (restore_step tid item d)"
  proof (cases "select_medicine d (medicine_id item)")
    case Nil
    with Cons.prems(2) show ?thesis by (simp add: restore_step_def)
  next
    case sel: (Cons m ms)
    from select_medicine_nonneg [OF Cons.prems(2) sel] q
    have "0 \<le> current_stock m + quantity item" by simp
    with Cons.prems(2) sel show ?thesis
      by (simp add: restore_step_def stock_nonneg_insert_stock_transaction
            stock_nonneg_update_current_stock)
  qed
  from Cons.IH [OF rest this] show ?case by simp
qed

lemma stock_nonneg_cancelSalesTransaction:
  assumes inv: "stock_nonneg d" and pos: "items_positive d"
  shows "stock_nonneg (snd (cancelSalesTransaction tid d))"
proof -
  have "list_all (\<lambda>i. 0 \<le> quantity i) (select_items d tid)"
    using pos by (auto simp: items_positive_def select_items_def list_all_iff)
  moreover have "stock_nonneg (update_status tid CANCELLED d)"
    using inv by (simp add: stock_nonneg_def update_status_frame)
  ultimately have "stock_nonneg (restore_stock tid (select_items d tid)
                                  (update_status tid CANCELLED d))"
    by (rule stock_nonneg_restore_stock)
  with inv show ?thesis
    by (simp add: cancelSalesTransaction_def Let_def split: list.splits)
qed

lemma invariant_run_operation:
  assumes inv: "stock_nonneg d" and pos: "items_positive d"
  shows "stock_nonneg (run_operation ops d c) \<and> items_positive (run_operation ops d c)"
proof (cases c)
  case (StockCreateTransaction input)
  have "stock_nonneg (snd (stock_createTransaction input d))"
    using inv stock_nonneg_createStockTransaction [of input d]
    by (auto simp: stock_createTransaction_def createStockTransactionInputSchema_def
          split: list.splits if_splits)
  with pos show ?thesis
    by (simp add: StockCreateTransaction
          items_positive_cong [OF stock_createTransaction_sales_frame(2)])
next
  case (SalesCreateTransaction input)
  show ?thesis
  proof (cases "createSalesTransactionInputSchema ops input")
    case Nil
    from schema_quantities_positive [OF Nil] inv pos show ?thesis
      by (simp add: SalesCreateTransaction sales_createTransaction_def Nil
            stock_nonneg_createSalesTransaction items_positive_createSalesTransaction)
  next
    case (Cons issue issues)
    with inv pos show ?thesis
      by (simp add: SalesCreateTransaction sales_createTransaction_def)
  qed
next
  case (SalesCancelTransaction tid)
  from inv pos show ?thesis
    by (simp add: SalesCancelTransaction sales_cancelTransaction_def
          stock_nonneg_cancelSalesTransaction
          items_positive_cong [OF cancelSalesTransaction_items_frame])
qed

lemma invariant_run_operations:
  "stock_nonneg d \<Longrightarrow> items_positive d \<Longrightarrow>
     stock_nonneg (run_operations ops d calls) \<and> items_positive (run_operations ops d calls)"
  unfolding run_operations_def
proof (induction calls arbitrary: d)
  case Nil
  then show ?case by simp
next
  case (Cons c calls)
  from invariant_run_operation [OF Cons.prems, of ops c] Cons.IH show ?case by simp
qed

lemma collect_medicineData_first_short_line:
  assumes "list_all (line_ok d) pre"
    and "select_medicine d (ci_medicine_id line) = m # ms"
    and "current_stock m < ci_quantity line"
  shows "collect_medicineData d (pre @ line # post) =
           Inl (InsufficientStockFor (name m) (current_stock m) (ci_quantity line))"
  using assms
  by (induction pre) (auto simp: line_ok_def split: list.splits)

text \<open>
  The counter stays non-negative. Started from a store in which no medicine has
  negative stock and every item row has a positive quantity, no sequence of calls of
  stock.createTransaction, sales.createTransaction and sales.cancelTransaction reaches
  a store with a medicine of negative stock. A stand-alone OUT movement whose quantity
  exceeds the stock of its medicine fails with the insufficient-stock error that
  carries the available and the requested quantity, and changes nothing. A sale with a
  cart line whose quantity exceeds the stock its medicine has before the sale fails
  and changes nothing; when the lines before it pass, the error is the
  insufficient-stock error of that line, with the medicine's name and the available
  and requested quantities.
\<close>

theorem stock_never_negative_and_short_out_rejected:
  "(stock_nonneg d \<and> items_positive d \<longrightarrow>
      stock_nonneg (run_operations ops d calls) \<and> items_positive (run_operations ops d calls))
   \<and> (select_medicine d (in_medicine_id input) = m # ms \<and> in_type input = OUT \<and>
      current_stock m < in_quantity input \<longrightarrow>
        createStockTransaction input d =
          (Inl (InsufficientStock (current_stock m) (in_quantity input)), d))
   \<and> (items sale = pre @ line # post \<and> list_all (line_ok d) pre \<and>
      select_medicine d (ci_medicine_id line) = m' # ms' \<and>
      current_stock m' < ci_quantity line \<longrightarrow>
        createSalesTransaction ops sale d =
          (Inl (InsufficientStockFor (name m') (current_stock m') (ci_quantity line)), d))
   \<and> (line \<in> set (items sale) \<and> select_medicine d (ci_medicine_id line) = m' # ms' \<and>
      current_stock m' < ci_quantity line \<longrightarrow>
        (\<exists>e. createSalesTransaction ops sale d = (Inl e, d)))"
proof (intro conjI impI)
  assume "stock_nonneg d \<and> items_positive d"
  then show "stock_nonneg (run_operations ops d calls)"
    and "items_positive (run_operations ops d calls)"
    using invariant_run_operations [of d ops calls] by simp_all
next
  assume "select_medicine d (in_medicine_id input) = m # ms \<and> in_type input = OUT \<and>
      current_stock m < in_quantity input"
  then show "createStockTransaction input d =
          (Inl (InsufficientStock (current_stock m) (in_quantity input)), d)"
    by (simp add: createStockTransaction_def)
next
  assume "items sale = pre @ line # post \<and> list_all (line_ok d) pre \<and>
      select_medicine d (ci_medicine_id line) = m' # ms' \<and>
      current_stock m' < ci_quantity line"
  then show "createSalesTransaction ops sale d =
          (Inl (InsufficientStockFor (name m') (current_stock m') (ci_quantity line)), d)"
    by (simp add: createSalesTransaction_def collect_medicineData_first_short_line)
next
  assume a: "line \<in> set (items sale) \<and> select_medicine d (ci_medicine_id line) = m' # ms' \<and>
      current_stock m' < ci_quantity line"
  then have "\<not> line_ok d line" by (simp add: line_ok_def)
  with a have "\<not> list_all (line_ok d) (items sale)" by (auto simp: list_all_iff)
  from collect_medicineData_Inl [OF this] show "\<exists>e. createSalesTransaction ops sale d = (Inl e, d)"
    by (auto simp: createSalesTransaction_def)
qed


theorem stock_never_negative_and_short_out_rejected_witness:
  "stock_nonneg test_db \<and> items_positive test_db \<and>
   stock_nonneg
     (run_operations hundredths_ops test_db
        [StockCreateTransaction (stock_input 1 OUT 30),
         SalesCreateTransaction (sale_input 100000000 [(1, 60), (1, 60)]),
         SalesCancelTransaction 1,
         StockCreateTransaction (stock_input 2 OUT 60)]) \<and>
   createStockTransaction (stock_input 1 OUT 200) test_db =
     (Inl (InsufficientStock 100 200), test_db) \<and>
   createSalesTransaction hundredths_ops (sale_input 2000000 [(2, 1), (1, 200)]) test_db =
     (Inl (InsufficientStockFor ''Paracetamol'' 100 200), test_db) \<and>
   (\<exists>e. createSalesTransaction hundredths_ops (sale_input 2000000 [(99999, 1), (1, 200)]) test_db =
          (Inl e, test_db))"
proof -
  let ?calls = "[StockCreateTransaction (stock_input 1 OUT 30),
         SalesCreateTransaction (sale_input 100000000 [(1, 60), (1, 60)]),
         SalesCancelTransaction 1,
         StockCreateTransaction (stock_input 2 OUT 60)] :: int operation list"
  let ?m = "\<lparr>med_id = 1, name = ''Paracetamol'', unit = ''tablet'', price = 500000 :: int,
             minimum_stock = 10, current_stock = 100\<rparr>"
  let ?ms = "[] :: int medicine list"
  let ?short = "\<lparr>ci_medicine_id = 1, ci_quantity = 200\<rparr>"
  let ?fine = "\<lparr>ci_medicine_id = 2, ci_quantity = 1\<rparr>"
  let ?unknown = "\<lparr>ci_medicine_id = 99999, ci_quantity = 1\<rparr>"
  have inv: "stock_nonneg test_db \<and> items_positive test_db"
    by (simp add: stock_nonneg_def items_positive_def test_db_def)
  have sel: "select_medicine test_db 1 = ?m # ?ms"
    by (simp add: select_medicine_def test_db_def)
  have fine: "list_all (line_ok test_db) [?fine]"
    by (simp add: line_ok_def select_medicine_def test_db_def)
  note A = stock_never_negative_and_short_out_rejected
        [where d = test_db and ops = hundredths_ops and calls = ?calls
           and input = "stock_input 1 OUT 200" and m = ?m and ms = ?ms
           and sale = "sale_input 2000000 [(2, 1), (1, 200)]"
           and pre = "[?fine]" and line = ?short and post = "[]" and m' = ?m and ms' = ?ms]
  note B = stock_never_negative_and_short_out_rejected
        [where d = test_db and ops = hundredths_ops and calls = ?calls
           and input = "stock_input 1 OUT 200" and m = ?m and ms = ?ms
           and sale = "sale_input 2000000 [(99999, 1), (1, 200)]"
           and pre = "[?unknown]" and line = ?short and post = "[]" and m' = ?m and ms' = ?ms]
  have 1: "stock_nonneg (run_operations hundredths_ops test_db ?calls)"
    using inv A by blast
  have 2: "createStockTransaction (stock_input 1 OUT 200) test_db =
             (Inl (InsufficientStock 100 200), test_db)"
    using sel A by (simp add: stock_input_def)
  have 3: "createSalesTransaction hundredths_ops (sale_input 2000000 [(2, 1), (1, 200)]) test_db =
             (Inl (InsufficientStockFor ''Paracetamol'' 100 200), test_db)"
    using sel fine A by (simp add: sale_input_def)
  have 4: "\<exists>e. createSalesTransaction hundredths_ops
                 (sale_input 2000000 [(99999, 1), (1, 200)]) test_db = (Inl e, test_db)"
    using sel B by (simp add: sale_input_def)
  from inv 1 2 3 4 show ?thesis by (intro conjI) simp_all
qed


section \<open>Item rows are written once\<close>

lemma run_operation_item_rows:
  "\<exists>rows. salesTransactionItemsTable (run_operation ops d c) =
            salesTransactionItemsTable d @ rows"
proof (cases c)
  case (StockCreateTransaction input)
  then show ?thesis by (simp add: stock_createTransaction_sales_frame)
next
  case (SalesCreateTransaction input)
  with sales_createTransaction_rows(2) [of ops input d] show ?thesis by simp
next
  case (SalesCancelTransaction tid)
  then show ?thesis
    by (simp add: sales_cancelTransaction_def cancelSalesTransaction_items_frame)
qed

lemma run_event_item_rows:
  "\<exists>rows. salesTransactionItemsTable (run_event ops d e) =
            salesTransactionItemsTable d @ rows"
  using run_operation_item_rows [of ops d] by (cases e) simp_all

lemma run_events_item_rows:
  "\<exists>rows. salesTransactionItemsTable (run_events ops d es) =
            salesTransactionItemsTable d @ rows"
  unfolding run_events_def
proof (induction es arbitrary: d)
  case Nil
  show ?case by simp
next
  case (Cons e es)
  from run_event_item_rows [of ops d e] obtain r1 where
    r1: "salesTransactionItemsTable (run_event ops d e) = salesTransactionItemsTable d @ r1" ..
  from Cons.IH [of "run_event ops d e"] obtain r2 where
    "salesTransactionItemsTable (foldl (run_event ops) (run_event ops d e) es) =
       salesTransactionItemsTable (run_event ops d e) @ r2" ..
  with r1 show ?case by simp
qed

lemma list_all2_of_maps:
  assumes "map g rows = map f xs" and "list_all Q xs"
    and "\<And>r x. g r = f x \<Longrightarrow> Q x \<Longrightarrow> P r x"
  shows "list_all2 P rows xs"
  using assms(1,2)
proof (induction rows arbitrary: xs)
  case Nil
  then show ?case by simp
next
  case (Cons r rows)
  then obtain x xs' where xs: "xs = x # xs'" by (cases xs) auto
  with Cons.prems have "g r = f x" "map g rows = map f xs'" "Q x" "list_all Q xs'" by simp_all
  with Cons.IH assms(3) xs show ?case by simp
qed

text \<open>
  C8. Pricing snapshot. A completed sale appends one item row per cart line whose
  unit_price is the number parsed from the price of the medicine row read by the
  validation loop, written back to the column, and whose total_price is computed from
  that same number and the line's quantity. Afterwards the rows of the item table are
  never rewritten: through any sequence of calls of the core and of writes to the
  medicines table (a change of a price, or of any other column) the rows already
  there keep their place and their content.
\<close>

theorem item_prices_are_copies_taken_at_the_sale:
  "(createSalesTransaction ops input d = (Inr t, d') \<longrightarrow>
      (\<exists>rows. salesTransactionItemsTable d' = salesTransactionItemsTable d @ rows \<and>
         list_all2
           (\<lambda>row line.
              \<exists>m ms. select_medicine d (ci_medicine_id line) = m # ms \<and>
                item_line row =
                  (sale_id t, ci_medicine_id line, ci_quantity line,
                   toNumeric ops (parseFloat ops (price m)),
                   toNumeric ops (mulNumber ops (parseFloat ops (price m)) (ci_quantity line))))
           rows (items input)))
   \<and> take (length (salesTransactionItemsTable d))
        (salesTransactionItemsTable (run_events ops d es)) = salesTransactionItemsTable d"
proof (intro conjI impI)
  assume res: "createSalesTransaction ops input d = (Inr t, d')"
  let ?md = "map (\<lambda>i. (hd (select_medicine d (ci_medicine_id i)), ci_quantity i)) (items input)"
  from createSalesTransaction_Inr [OF res] obtain md d1 where
    md: "collect_medicineData d (items input) = Inr md"
    and d1: "salesTransactionItemsTable d1 = salesTransactionItemsTable d"
    and d': "d' = debit_stock (sale_id t) md
                (insert_items ops (sale_id t) (itemsWithPrices ops md) d1)"
    by (metis insert_sales_transaction_frame(3))
  note ok = collect_medicineData_shape(1) [OF md]
  note shape = collect_medicineData_shape(2) [OF md]
  from insert_items_rows [of ops "sale_id t" "itemsWithPrices ops md" d1] obtain rows where
    rows: "salesTransactionItemsTable (insert_items ops (sale_id t) (itemsWithPrices ops md) d1) =
             salesTransactionItemsTable d1 @ rows"
    and lines: "map item_line rows =
         map (\<lambda>ip. (sale_id t, ip_medicine_id ip, ip_quantity ip,
                     toNumeric ops (ip_unit_price ip), toNumeric ops (ip_total_price ip)))
             (itemsWithPrices ops md)"
    by blast
  let ?f = "\<lambda>line. (sale_id t, med_id (hd (select_medicine d (ci_medicine_id line))),
                    ci_quantity line,
                    toNumeric ops (parseFloat ops
                      (price (hd (select_medicine d (ci_medicine_id line))))),
                    toNumeric ops (mulNumber ops (parseFloat ops
                      (price (hd (select_medicine d (ci_medicine_id line)))))
                      (ci_quantity line)))"
  have eq: "map item_line rows = map ?f (items input)"
    unfolding lines shape by (simp add: itemsWithPrices_def comp_def)
  have "list_all2
           (\<lambda>row line.
              \<exists>m ms. select_medicine d (ci_medicine_id line) = m # ms \<and>
                item_line row =
                  (sale_id t, ci_medicine_id line, ci_quantity line,
                   toNumeric ops (parseFloat ops (price m)),
                   toNumeric ops (mulNumber ops (parseFloat ops (price m)) (ci_quantity line))))
           rows (items input)"
  proof (rule list_all2_of_maps [OF eq ok])
    fix r line
    assume r: "item_line r = ?f line" and l: "line_ok d line"
    from l obtain m ms where sel: "select_medicine d (ci_medicine_id line) = m # ms"
      by (auto simp: line_ok_def split: list.splits)
    from stock_of_hd [OF l] sel have "med_id m = ci_medicine_id line" by simp
    with r sel show "\<exists>m ms. select_medicine d (ci_medicine_id line) = m # ms \<and>
                item_line r =
                  (sale_id t, ci_medicine_id line, ci_quantity line,
                   toNumeric ops (parseFloat ops (price m)),
                   toNumeric ops (mulNumber ops (parseFloat ops (price m)) (ci_quantity line)))"
      by simp
  qed
  moreover have "salesTransactionItemsTable d' = salesTransactionItemsTable d @ rows"
    by (simp add: d' debit_stock_frame rows d1)
  ultimately show "\<exists>rows. salesTransactionItemsTable d' = salesTransactionItemsTable d @ rows \<and>
         list_all2
           (\<lambda>row line.
              \<exists>m ms. select_medicine d (ci_medicine_id line) = m # ms \<and>
                item_line row =
                  (sale_id t, ci_medicine_id line, ci_quantity line,
                   toNumeric ops (parseFloat ops (price m)),
                   toNumeric ops (mulNumber ops (parseFloat ops (price m)) (ci_quantity line))))
           rows (items input)"
    by blast
next
  from run_events_item_rows [of ops d es] obtain rows where
    "salesTransactionItemsTable (run_events ops d es) = salesTransactionItemsTable d @ rows" ..
  then show "take (length (salesTransactionItemsTable d))
        (salesTransactionItemsTable (run_events ops d es)) = salesTransactionItemsTable d"
    by simp
qed


theorem item_prices_are_copies_taken_at_the_sale_witness:
  "fst (createSalesTransaction hundredths_ops (sale_input 5000000 [(1, 5), (2, 3)]) test_db) =
     Inr \<lparr>sale_id = 1, sale_patient_id = None, total_amount = 3400000,
           sale_payment_method = CASH, payment_received = 5000000,
           change_amount = 1600000, status = COMPLETED,
           sale_notes = Some ''Test transaction''\<rparr> \<and>
   snd (createSalesTransaction hundredths_ops (sale_input 5000000 [(1, 5), (2, 3)]) test_db) =
     sold_db \<and>
   map item_line (salesTransactionItemsTable sold_db) =
     [(1, 1, 5, 500000, 2500000), (1, 2, 3, 300000, 900000)] \<and>
   take 2 (salesTransactionItemsTable
             (run_events hundredths_ops sold_db
                [MedicinesWritten
                   [\<lparr>med_id = 1, name = ''Paracetamol'', unit = ''tablet'', price = 750000,
                     minimum_stock = 10, current_stock = 95\<rparr>],
                 Call (SalesCreateTransaction (sale_input 5000000 [(1, 1)])),
                 Call (SalesCancelTransaction 1)])) =
     salesTransactionItemsTable sold_db"
proof -
  let ?input = "sale_input 5000000 [(1, 5), (2, 3)]"
  let ?t = "\<lparr>sale_id = 1, sale_patient_id = None, total_amount = 3400000 :: int,
           sale_payment_method = CASH, payment_received = 5000000,
           change_amount = 1600000, status = COMPLETED,
           sale_notes = Some ''Test transaction''\<rparr>"
  let ?es = "[MedicinesWritten
                   [\<lparr>med_id = 1, name = ''Paracetamol'', unit = ''tablet'', price = 750000,
                     minimum_stock = 10, current_stock = 95\<rparr>],
                 Call (SalesCreateTransaction (sale_input 5000000 [(1, 1)])),
                 Call (SalesCancelTransaction 1)] :: (int, int) event list"
  note sale = sold_db_is_the_sale
  note T = item_prices_are_copies_taken_at_the_sale
             [of hundredths_ops ?input test_db ?t sold_db ?es]
  note U = item_prices_are_copies_taken_at_the_sale
             [of hundredths_ops ?input sold_db ?t sold_db ?es]
  from T sale obtain rows where
    rows: "salesTransactionItemsTable sold_db = salesTransactionItemsTable test_db @ rows"
    and prices: "list_all2
           (\<lambda>row line.
              \<exists>m ms. select_medicine test_db (ci_medicine_id line) = m # ms \<and>
                item_line row =
                  (sale_id ?t, ci_medicine_id line, ci_quantity line,
                   toNumeric hundredths_ops (parseFloat hundredths_ops (price m)),
                   toNumeric hundredths_ops
                     (mulNumber hundredths_ops (parseFloat hundredths_ops (price m))
                        (ci_quantity line))))
           rows (items ?input)"
    by blast
  from rows have "rows = salesTransactionItemsTable sold_db" by (simp add: test_db_def)
  with prices have 1: "map item_line (salesTransactionItemsTable sold_db) =
     [(1, 1, 5, 500000, 2500000), (1, 2, 3, 300000, 900000)]"
    by (auto simp: sold_db_def sale_input_def select_medicine_def test_db_def hundredths_ops_def)
  have len: "length (salesTransactionItemsTable sold_db) = 2"
    by (simp add: sold_db_def)
  have 2: "take 2 (salesTransactionItemsTable (run_events hundredths_ops sold_db ?es)) =
                  salesTransactionItemsTable sold_db"
    using conjunct2 [OF U] unfolding len .
  from sale 1 2 show ?thesis by simp
qed


section \<open>Where the counter and the ledger move together\<close>

text \<open>
  createStockTransaction and cancelSalesTransaction read the stock afresh before every
  write, and each of their ledger rows goes with a change of the counter by the same
  signed quantity. createSalesTransaction does so for a cart that names each medicine
  once.
\<close>

lemma ledger_sum_movement:
  "ledger_sum d k =
     sum_list (map (\<lambda>(k', ty, q, n). if ty = IN then q else - q)
                 (filter (\<lambda>(k', ty, q, n). k' = k) (map movement (stockTransactionsTable d))))"
proof -
  have "signed_quantity = (\<lambda>t. if st_type t = IN then st_quantity t else - st_quantity t)"
    by (rule ext) (simp add: signed_quantity_def)
  then show ?thesis
    by (simp add: ledger_sum_def filter_map comp_def movement_def)
qed

lemma ledger_sum_append:
  assumes "map movement (stockTransactionsTable d') = map movement (stockTransactionsTable d) @ new"
  shows "ledger_sum d' k =
           ledger_sum d k +
           sum_list (map (\<lambda>(k', ty, q, n). if ty = IN then q else - q)
                       (filter (\<lambda>(k', ty, q, n). k' = k) new))"
  by (simp add: ledger_sum_movement assms)


lemma counter_minus_ledger_cong:
  "medicinesTable d' = medicinesTable d \<Longrightarrow>
   stockTransactionsTable d' = stockTransactionsTable d \<Longrightarrow>
     counter_minus_ledger d' k = counter_minus_ledger d k"
  by (simp add: counter_minus_ledger_def stock_of_def select_medicine_def ledger_sum_def)

lemma createStockTransaction_moves_counter_with_ledger:
  "counter_minus_ledger (snd (createStockTransaction input d)) k = counter_minus_ledger d k"
proof (cases "select_medicine d (in_medicine_id input)")
  case Nil
  then show ?thesis by (simp add: createStockTransaction_def)
next
  case (Cons m ms)
  show ?thesis
  proof (cases "in_type input = OUT \<and> current_stock m < in_quantity input")
    case True
    with Cons show ?thesis by (simp add: createStockTransaction_def)
  next
    case False
    let ?c = "if in_type input = IN then in_quantity input else - in_quantity input"
    let ?d1 = "snd (insert_stock_transaction (in_medicine_id input) (in_type input)
                      (in_quantity input) (in_notes input) d)"
    let ?d' = "update_current_stock (in_medicine_id input) (current_stock m + ?c) ?d1"
    have res: "snd (createStockTransaction input d) = ?d'"
      unfolding createStockTransaction_def Cons list.case if_not_P [OF False]
      by (simp add: Let_def split: prod.splits)
    have before: "stock_of d (in_medicine_id input) = Some (current_stock m)"
      using Cons by (simp add: stock_of_def)
    have stock: "stock_of ?d' k =
                   (if k = in_medicine_id input then Some (current_stock m + ?c)
                    else stock_of d k)"
      by (simp add: stock_of_update_current_stock stock_of_insert_stock_transaction before)
    have "map movement (stockTransactionsTable ?d') =
            map movement (stockTransactionsTable d) @
              [(in_medicine_id input, in_type input, in_quantity input, in_notes input)]"
      by (simp add: ledger_update_current_stock ledger_insert_stock_transaction)
    from ledger_sum_append [OF this, of k]
    have ledger: "ledger_sum ?d' k =
                    ledger_sum d k + (if k = in_medicine_id input then ?c else 0)"
      by auto
    show ?thesis
      unfolding res counter_minus_ledger_def stock ledger
      using before by auto
  qed
qed

lemma cancelSalesTransaction_moves_counter_with_ledger:
  "counter_minus_ledger (snd (cancelSalesTransaction tid d)) k = counter_minus_ledger d k"
proof (cases "select_sales_transaction d tid")
  case Nil
  then show ?thesis by (simp add: cancelSalesTransaction_def)
next
  case (Cons t ts)
  show ?thesis
  proof (cases "status t = CANCELLED")
    case True
    with Cons show ?thesis by (simp add: cancelSalesTransaction_def)
  next
    case False
    note effect = cancelSalesTransaction_effect [OF Cons False]
    let ?d' = "snd (cancelSalesTransaction tid d)"
    let ?its = "select_items d tid"
    show ?thesis
    proof (cases "stock_of d k")
      case None
      then show ?thesis by (simp add: counter_minus_ledger_def effect(4))
    next
      case (Some s)
      then have found: "select_medicine d k \<noteq> []"
        by (auto simp: stock_of_def split: list.splits)
      have same: "filter (\<lambda>i. medicine_id i = k \<and> select_medicine d (medicine_id i) \<noteq> []) its =
                  filter (\<lambda>i. medicine_id i = k) its" for its :: "'a sales_transaction_item list"
        using found by (induction its) auto
      have same': "filter (\<lambda>i. select_medicine d (medicine_id i) \<noteq> [] \<and> medicine_id i = k) its =
                  filter (\<lambda>i. medicine_id i = k) its" for its :: "'a sales_transaction_item list"
        using found by (induction its) auto
      from ledger_sum_append [OF effect(3), of k]
      have "ledger_sum ?d' k =
              ledger_sum d k + sum_list (map quantity (filter (\<lambda>i. medicine_id i = k) ?its))"
        by (simp add: filter_map comp_def same same')
      with Some show ?thesis
        by (simp add: counter_minus_ledger_def effect(4))
    qed
  qed
qed

lemma last_quantity_None:
  "k \<notin> set (map ci_medicine_id cart) \<Longrightarrow> last_quantity k cart = None"
  by (induction cart) auto

lemma distinct_lines_sum:
  "distinct (map ci_medicine_id cart) \<Longrightarrow>
     sum_list (map ci_quantity (filter (\<lambda>i. ci_medicine_id i = k) cart)) =
       (case last_quantity k cart of None \<Rightarrow> 0 | Some q \<Rightarrow> q)"
proof (induction cart)
  case Nil
  show ?case by simp
next
  case (Cons i cart)
  show ?case
  proof (cases "ci_medicine_id i = k")
    case True
    with Cons.prems have out: "k \<notin> set (map ci_medicine_id cart)" by auto
    then have "filter (\<lambda>i. ci_medicine_id i = k) cart = []"
      by (induction cart) auto
    with True last_quantity_None [OF out] show ?thesis by simp
  next
    case False
    with Cons show ?thesis by (simp split: option.splits)
  qed
qed

lemma createSalesTransaction_moves_counter_with_ledger:
  assumes "distinct (map ci_medicine_id (items input))"
  shows "counter_minus_ledger (snd (createSalesTransaction ops input d)) k =
           counter_minus_ledger d k"
proof -
  from createSalesTransaction_total [of ops input d] show ?thesis
  proof
    assume "\<exists>e. createSalesTransaction ops input d = (Inl e, d)"
    then show ?thesis by auto
  next
    assume "\<exists>t d'. createSalesTransaction ops input d = (Inr t, d')"
    then obtain t d' where res: "createSalesTransaction ops input d = (Inr t, d')" by blast
    note effect = createSalesTransaction_effect [OF res]
    from ledger_sum_append [OF effect(3), of k]
    have "ledger_sum d' k =
            ledger_sum d k -
            sum_list (map ci_quantity (filter (\<lambda>i. ci_medicine_id i = k) (items input)))"
      by (simp add: filter_map comp_def uminus_sum_list_map)
    then have "ledger_sum d' k =
            ledger_sum d k - (case last_quantity k (items input) of None \<Rightarrow> 0 | Some q \<Rightarrow> q)"
      by (simp add: distinct_lines_sum [OF assms])
    then show ?thesis
      by (cases "stock_of d k")
         (simp_all add: res counter_minus_ledger_def effect(2) split: option.splits)
  qed
qed


section \<open>Cancelling a sale whose cart names each medicine once\<close>

text \<open>
  For such a cart, and a serial that no sale row and no item row of the store already
  carries, the cancellation of the sale just made returns true and puts every stock
  back to its value before the sale.
\<close>

lemma insert_sales_transaction_row:
  "\<exists>row. salesTransactionsTable (snd (insert_sales_transaction p t m r c s n d)) =
            salesTransactionsTable d @ [row] \<and>
          sale_id row = sales_transactions_id_seq d \<and> status row = s"
  by (simp add: insert_sales_transaction_def Let_def)

lemma createSalesTransaction_rows:
  assumes res: "createSalesTransaction ops input d = (Inr t, d')"
  shows "sale_id t = sales_transactions_id_seq d"
    and "\<exists>row. salesTransactionsTable d' = salesTransactionsTable d @ [row] \<and>
               sale_id row = sale_id t \<and> status row = COMPLETED"
    and "\<exists>rows. salesTransactionItemsTable d' = salesTransactionItemsTable d @ rows \<and>
           map (\<lambda>r. (transaction_id r, medicine_id r, quantity r)) rows =
             map (\<lambda>i. (sale_id t, ci_medicine_id i, ci_quantity i)) (items input)"
proof -
  from createSalesTransaction_Inr [OF res] obtain md d1 where
    md: "collect_medicineData d (items input) = Inr md"
    and tid: "sale_id t = sales_transactions_id_seq d"
    and items1: "salesTransactionItemsTable d1 = salesTransactionItemsTable d"
    and sales1: "\<exists>row. salesTransactionsTable d1 = salesTransactionsTable d @ [row] \<and>
                   sale_id row = sales_transactions_id_seq d \<and> status row = COMPLETED"
    and d': "d' = debit_stock (sale_id t) md
                (insert_items ops (sale_id t) (itemsWithPrices ops md) d1)"
    by (metis insert_sales_transaction_frame(3) insert_sales_transaction_row)
  show "sale_id t = sales_transactions_id_seq d" by (rule tid)
  from sales1 show "\<exists>row. salesTransactionsTable d' = salesTransactionsTable d @ [row] \<and>
               sale_id row = sale_id t \<and> status row = COMPLETED"
    by (simp add: d' debit_stock_frame insert_items_frame tid)
  note ok = collect_medicineData_shape(1) [OF md]
  note shape = collect_medicineData_shape(2) [OF md]
  from insert_items_rows [of ops "sale_id t" "itemsWithPrices ops md" d1] obtain rows where
    rows: "salesTransactionItemsTable (insert_items ops (sale_id t) (itemsWithPrices ops md) d1) =
             salesTransactionItemsTable d1 @ rows"
    and lines: "map item_line rows =
         map (\<lambda>ip. (sale_id t, ip_medicine_id ip, ip_quantity ip,
                     toNumeric ops (ip_unit_price ip), toNumeric ops (ip_total_price ip)))
             (itemsWithPrices ops md)"
    by blast
  have "map (\<lambda>r. (transaction_id r, medicine_id r, quantity r)) rows =
          map ((\<lambda>(a, b, c, u, v). (a, b, c)) \<circ> item_line) rows"
    by (simp add: item_line_def comp_def)
  also have "\<dots> = map (\<lambda>(a, b, c, u, v). (a, b, c)) (map item_line rows)" by simp
  also have "\<dots> = map (\<lambda>i. (sale_id t, med_id (hd (select_medicine d (ci_medicine_id i))),
                              ci_quantity i)) (items input)"
    unfolding lines shape by (simp add: itemsWithPrices_def comp_def)
  also have "\<dots> = map (\<lambda>i. (sale_id t, ci_medicine_id i, ci_quantity i)) (items input)"
    using ok stock_of_hd [of d] by (induction "items input") (auto simp: list_all_iff)
  finally have "map (\<lambda>r. (transaction_id r, medicine_id r, quantity r)) rows =
             map (\<lambda>i. (sale_id t, ci_medicine_id i, ci_quantity i)) (items input)" .
  moreover have "salesTransactionItemsTable d' = salesTransactionItemsTable d @ rows"
    by (simp add: d' debit_stock_frame rows items1)
  ultimately show "\<exists>rows. salesTransactionItemsTable d' = salesTransactionItemsTable d @ rows \<and>
           map (\<lambda>r. (transaction_id r, medicine_id r, quantity r)) rows =
             map (\<lambda>i. (sale_id t, ci_medicine_id i, ci_quantity i)) (items input)"
    by blast
qed

lemma rows_of_lines:
  "map (\<lambda>r. (transaction_id r, medicine_id r, quantity r)) rows =
     map (\<lambda>i. (tid, ci_medicine_id i, ci_quantity i)) cart \<Longrightarrow>
   filter (\<lambda>r. transaction_id r = tid) rows = rows \<and>
   sum_list (map quantity (filter (\<lambda>r. medicine_id r = k) rows)) =
     sum_list (map ci_quantity (filter (\<lambda>i. ci_medicine_id i = k) cart))"
proof (induction rows arbitrary: cart)
  case Nil
  then show ?case by simp
next
  case (Cons r rows)
  then obtain i cart' where cart: "cart = i # cart'" by (cases cart) auto
  with Cons.prems have head: "transaction_id r = tid" "medicine_id r = ci_medicine_id i"
      "quantity r = ci_quantity i"
    and rest: "map (\<lambda>r. (transaction_id r, medicine_id r, quantity r)) rows =
                 map (\<lambda>i. (tid, ci_medicine_id i, ci_quantity i)) cart'"
    by simp_all
  from Cons.IH [OF rest] head show ?case by (simp add: cart)
qed

lemma cancelSalesTransaction_restores_distinct_cart:
  assumes res: "createSalesTransaction ops input d = (Inr t, d1)"
    and once: "distinct (map ci_medicine_id (items input))"
    and fresh: "select_sales_transaction d (sales_transactions_id_seq d) = []"
      "select_items d (sales_transactions_id_seq d) = []"
  shows "fst (cancelSalesTransaction (sale_id t) d1)"
    and "stock_of (snd (cancelSalesTransaction (sale_id t) d1)) k = stock_of d k"
proof -
  note rows = createSalesTransaction_rows [OF res]
  from rows(2) obtain row where
    row: "salesTransactionsTable d1 = salesTransactionsTable d @ [row]"
      "sale_id row = sale_id t" "status row = COMPLETED"
    by blast
  from rows(3) obtain its where
    its: "salesTransactionItemsTable d1 = salesTransactionItemsTable d @ its"
      "map (\<lambda>r. (transaction_id r, medicine_id r, quantity r)) its =
         map (\<lambda>i. (sale_id t, ci_medicine_id i, ci_quantity i)) (items input)"
    by blast
  have sel: "select_sales_transaction d1 (sale_id t) = row # []"
    using fresh(1) row rows(1) by (simp add: select_sales_transaction_def)
  have st: "status row \<noteq> CANCELLED" using row(3) by simp
  note lines = rows_of_lines [OF its(2), of k]
  have sold: "select_items d1 (sale_id t) = its"
    using fresh(2) its(1) rows(1) lines by (simp add: select_items_def)
  note effect = cancelSalesTransaction_effect [OF sel st]
  show "fst (cancelSalesTransaction (sale_id t) d1)" by (rule effect(1))
  have "stock_of (snd (cancelSalesTransaction (sale_id t) d1)) k =
          map_option
            (\<lambda>s. s + (case last_quantity k (items input) of None \<Rightarrow> 0 | Some q \<Rightarrow> q))
            (stock_of d1 k)"
    unfolding effect(4) sold using lines by (simp add: distinct_lines_sum [OF once])
  also have "\<dots> = stock_of d k"
    unfolding createSalesTransaction_effect(2) [OF res]
    by (cases "stock_of d k") (simp_all split: option.splits)
  finally show "stock_of (snd (cancelSalesTransaction (sale_id t) d1)) k = stock_of d k" .
qed


lemma run_operation_moves_counter_with_ledger:
  assumes "names_each_medicine_once c"
  shows "counter_minus_ledger (run_operation ops d c) k = counter_minus_ledger d k"
proof (cases c)
  case (StockCreateTransaction input)
  then show ?thesis
    by (simp add: stock_createTransaction_def createStockTransaction_moves_counter_with_ledger
          split: list.splits)
next
  case (SalesCreateTransaction input)
  with assms have "distinct (map ci_medicine_id (items input))" by simp
  from createSalesTransaction_moves_counter_with_ledger [OF this, of ops d k]
  show ?thesis
    by (simp add: SalesCreateTransaction sales_createTransaction_def split: list.splits)
next
  case (SalesCancelTransaction tid)
  then show ?thesis
    by (simp add: sales_cancelTransaction_def cancelSalesTransaction_moves_counter_with_ledger)
qed

lemma run_operations_moves_counter_with_ledger:
  "list_all names_each_medicine_once calls \<Longrightarrow>
     counter_minus_ledger (run_operations ops d calls) k = counter_minus_ledger d k"
  unfolding run_operations_def
  by (induction calls arbitrary: d) (simp_all add: run_operation_moves_counter_with_ledger)


section \<open>A cart that names a medicine twice\<close>

lemmas evaluation =
  createSalesTransaction_def cancelSalesTransaction_def createStockTransaction_def
  sale_input_def stock_input_def test_db_def hundredths_ops_def
  select_medicine_def select_sales_transaction_def select_items_def
  update_current_stock_def update_status_def
  insert_stock_transaction_def insert_sales_transaction_def insert_sales_transaction_item_def
  totalAmount_def itemsWithPrices_def restore_step_def Let_def show_nat.simps
  stock_of_def ledger_sum_def signed_quantity_def movement_def

text \<open>
  C1. Ledger/counter agreement, for a cart that names a medicine twice. Paracetamol starts
  with stock 100 and an empty ledger. The sale of the cart [2 Paracetamol,
  3 Paracetamol] completes; it records OUT 2 and OUT 3, so the ledger sums to \<open>-5\<close>
  and the counter should read 95, but the third loop writes \<open>100 - 2\<close> and then
  \<open>100 - 3\<close> from the stock it read before any write: the counter reads 97.
\<close>

theorem createSalesTransaction_duplicate_lines_counter_and_ledger_disagree:
  "stock_of test_db 1 = Some 100 \<and> ledger_sum test_db 1 = 0 \<and>
   fst (createSalesTransaction hundredths_ops (sale_input 5000000 [(1, 2), (1, 3)]) test_db) =
     Inr \<lparr>sale_id = 1, sale_patient_id = None, total_amount = 2500000,
           sale_payment_method = CASH, payment_received = 5000000,
           change_amount = 2500000, status = COMPLETED,
           sale_notes = Some ''Test transaction''\<rparr> \<and>
   stock_of (snd (createSalesTransaction hundredths_ops
                    (sale_input 5000000 [(1, 2), (1, 3)]) test_db)) 1 = Some 97 \<and>
   ledger_sum (snd (createSalesTransaction hundredths_ops
                      (sale_input 5000000 [(1, 2), (1, 3)]) test_db)) 1 = - 5"
  by (simp add: evaluation)

text \<open>
  C4. Cancellation reversibility, at the same cart. Nothing else touches the medicine
  between the sale and its cancellation. The cancellation returns true and appends
  IN 2 and IN 3, one row per line with the line's quantity, each added to the stock
  read afresh: the counter goes from 97 to 102, not back to the pre-sale 100.
\<close>

theorem cancelSalesTransaction_after_duplicate_lines_overshoots:
  "stock_of test_db 1 = Some 100 \<and>
   stock_of (snd (createSalesTransaction hundredths_ops
                    (sale_input 5000000 [(1, 2), (1, 3)]) test_db)) 1 = Some 97 \<and>
   fst (cancelSalesTransaction 1
          (snd (createSalesTransaction hundredths_ops
                  (sale_input 5000000 [(1, 2), (1, 3)]) test_db))) \<and>
   stock_of (snd (cancelSalesTransaction 1
                    (snd (createSalesTransaction hundredths_ops
                            (sale_input 5000000 [(1, 2), (1, 3)]) test_db)))) 1 = Some 102 \<and>
   map movement
     (stockTransactionsTable
        (snd (cancelSalesTransaction 1
                (snd (createSalesTransaction hundredths_ops
                        (sale_input 5000000 [(1, 2), (1, 3)]) test_db))))) =
     [(1, OUT, 2, Some ''Sales transaction #1''), (1, OUT, 3, Some ''Sales transaction #1''),
      (1, IN, 2, Some ''Cancelled sales transaction #1''),
      (1, IN, 3, Some ''Cancelled sales transaction #1'')]"
  by (simp add: evaluation)

text \<open>
  C2. No negative stock, for a cart that names a medicine twice. Paracetamol has stock
  100. The sale of the cart [60 Paracetamol, 60 Paracetamol] raises no
  insufficient-stock error and completes: both lines were checked against the 100
  read before any write, and the debit loop applies each OUT without a check. The
  second OUT 60 is recorded when the balance is 40; the ledger holds OUT 60 twice and
  sums to \<open>-120\<close>, below the 100 in stock, while the counter reads 40. The
  stand-alone path does refuse that movement: after a sale of 60 alone the stock is 40
  and createStockTransaction with OUT 60 throws the insufficient-stock error with
  available 40 and required 60.
\<close>

theorem createSalesTransaction_applies_out_beyond_the_balance:
  "stock_of test_db 1 = Some 100 \<and>
   fst (createSalesTransaction hundredths_ops (sale_input 100000000 [(1, 60), (1, 60)]) test_db) =
     Inr \<lparr>sale_id = 1, sale_patient_id = None, total_amount = 60000000,
           sale_payment_method = CASH, payment_received = 100000000,
           change_amount = 40000000, status = COMPLETED,
           sale_notes = Some ''Test transaction''\<rparr> \<and>
   map movement
     (stockTransactionsTable
        (snd (createSalesTransaction hundredths_ops
                (sale_input 100000000 [(1, 60), (1, 60)]) test_db))) =
     [(1, OUT, 60, Some ''Sales transaction #1''), (1, OUT, 60, Some ''Sales transaction #1'')] \<and>
   ledger_sum (snd (createSalesTransaction hundredths_ops
                      (sale_input 100000000 [(1, 60), (1, 60)]) test_db)) 1 = - 120 \<and>
   stock_of (snd (createSalesTransaction hundredths_ops
                    (sale_input 100000000 [(1, 60), (1, 60)]) test_db)) 1 = Some 40 \<and>
   stock_of (snd (createSalesTransaction hundredths_ops
                    (sale_input 100000000 [(1, 60)]) test_db)) 1 = Some 40 \<and>
   fst (createStockTransaction (stock_input 1 OUT 60)
          (snd (createSalesTransaction hundredths_ops
                  (sale_input 100000000 [(1, 60)]) test_db))) =
     Inl (InsufficientStock 40 60)"
  by (simp add: evaluation)

section \<open>Amounts in doubles\<close>

lemmas binary64_evaluation =
  binary64_ops_def nearest_binary64_def nearest_positive_def scale_down.simps scale_up.simps
  round_half_even_def Let_def

text \<open>In doubles, 0.1 + 0.2 is 0.30000000000000004, the double above 0.3.\<close>

lemma binary64_tenth_plus_fifth:
  "binary64_plus (nearest_binary64 1 10 0) (nearest_binary64 2 10 0) =
     Binary64 5404319552844596 (- 54) \<and>
   nearest_binary64 3 10 0 = Binary64 5404319552844595 (- 54)"
  by (simp add: binary64_evaluation)

text \<open>
  C5. Monetary computation, in the numbers of the code. The price is 0.10 and the cart
  is one line of quantity 3, so the line total and the total are 0.30, and the payment
  received is 0.3. The handler parses the price to the double nearest 0.1, and its
  product with 3 is the double 0.30000000000000004, one unit in the last place above
  the double nearest 0.3 that the payment is; the change it computes is negative and
  the sale is refused with the payment error, nothing written. In exact hundredths
  the same sale completes with total 0.30 and change 0.00.
\<close>

theorem createSalesTransaction_refuses_exact_payment_in_doubles:
  "parseFloat (binary64_ops column) 10 = Binary64 7205759403792794 (- 56) \<and>
   mulNumber (binary64_ops column) (parseFloat (binary64_ops column) 10) 3 =
     Binary64 5404319552844596 (- 54) \<and>
   nearest_binary64 3 10 0 = Binary64 5404319552844595 (- 54) \<and>
   createSalesTransaction (binary64_ops column) (three_dimes (nearest_binary64 3 10 0)) dime_db =
     (Inl PaymentLessThanTotal, dime_db) \<and>
   fst (createSalesTransaction hundredths_ops (three_dimes 30) dime_db) =
     Inr \<lparr>sale_id = 1, sale_patient_id = None, total_amount = 30,
           sale_payment_method = CASH, payment_received = 30,
           change_amount = 0, status = COMPLETED, sale_notes = None\<rparr>"
  by (simp add: binary64_evaluation createSalesTransaction_def three_dimes_def dime_db_def
        select_medicine_def totalAmount_def hundredths_ops_def insert_sales_transaction_def
        split: prod.splits)

end
